theory Spec2Isabelle
  imports Complex_Main "HOL-Library.AList" "HOL-Library.Multiset"
begin

section \<open>Multi-reference translation evaluation (mt\_eval/src/evaluator.py)\<close>

text \<open>
  A shallow embedding of the class \<open>Evaluator\<close>. The metric libraries (SacreBLEU, NLTK,
  rouge-score, bert-score, BLEURT, COMET) are not code of the repository: their entry
  points are fields of the record \<open>Evaluator\<close>, arbitrary functions that return a value or
  raise. A raise is the left injection of a sum; the handlers \<open>except Exception\<close> of the
  source catch it. Exceptions outside the class \<open>Exception\<close> (KeyboardInterrupt,
  SystemExit) are not modelled.

  Python floats are modelled by exact reals (no rounding, no NaN), extended by the one
  infinite value the source writes itself, \<open>-float('inf')\<close>. A Python \<open>str\<close> that holds
  text is a list of Unicode code points; dictionary keys and metric names are HOL strings.
  A \<open>dict\<close> is an association list in insertion order with distinct keys.
\<close>

subsection \<open>Values\<close>

type_synonym str = "nat list"

definition text_of :: "string \<Rightarrow> str" where
  "text_of s = map of_char s"

datatype py_exception = TypeError string | LibraryError string

datatype pyfloat = NegInf | Fin real

text \<open>\<open>x > best\<close> for a finite \<open>x\<close> and an accumulator that starts at \<open>-float('inf')\<close>.\<close>

fun float_gt :: "real \<Rightarrow> pyfloat \<Rightarrow> bool" where
  "float_gt x NegInf = True"
| "float_gt x (Fin y) = (x > y)"

datatype 's detail_value = DFloat 's | DInt nat | DStr string

record 's EvaluationScore =
  metric_name :: string
  score :: 's
  details :: "(string \<times> 's detail_value) list"

record 's ChunkEvaluation =
  chunk_id :: string
  model_name :: string
  scores :: "'s EvaluationScore list"
  per_reference_scores :: "(string \<times> (string \<times> 's) list) list"

text \<open>What the libraries return: SacreBLEU's \<open>BLEUScore\<close> (fields \<open>score\<close>, \<open>bp\<close>) and
  rouge-score's \<open>Score\<close> for \<open>rougeL\<close>.\<close>

record BLEUScore =
  sacre_score :: real
  bp :: real

record RougeScore =
  precision :: real
  recall :: real
  fmeasure :: real

text \<open>
  The evaluator after \<open>__init__\<close>: \<open>metric_handlers\<close> has one optional entry per key
  (\<open>'bleu'\<close>, \<open>'chrf'\<close>, \<open>'meteor'\<close>, \<open>'rouge'\<close>, \<open>'bertscore'\<close>, \<open>'bleurt'\<close>, \<open>'comet'\<close>).
  Each field is the call the source makes on the handler:
  \<^item> \<open>bleu_handler h refs\<close> is \<open>BLEU.sentence_score(h, refs)\<close>;
  \<^item> \<open>chrf_handler h refs\<close> is \<open>CHRF.sentence_score(h, refs).score\<close>;
  \<^item> \<open>meteor_handler ref_tokens hyp_tokens\<close> is \<open>meteor_score(ref_tokens, hyp_tokens)\<close>;
  \<^item> \<open>rouge_handler reference h\<close> is \<open>scorer.score(reference, h)['rougeL']\<close>;
  \<^item> \<open>bertscore_handler h reference cuda\<close> is \<open>(float(P[0]), float(R[0]), float(F1[0]))\<close> of
    \<open>bert_score.score([h], [reference], lang='en', device=...)\<close>;
  \<^item> \<open>bleurt_handler reference h\<close> is \<open>scorer.score(references=[reference], candidates=[h])[0]\<close>;
  \<^item> \<open>comet_handler source h reference gpus num_workers\<close> is
    \<open>float(model.predict([{src, mt, ref}], batch_size=1, gpus, num_workers)['scores'][0])\<close>.
  The remaining fields are the library functions called inside the \<open>try\<close> blocks.
\<close>

record Evaluator =
  use_gpu :: bool
  bleu_handler :: "(str \<Rightarrow> str list \<Rightarrow> py_exception + BLEUScore) option"
  chrf_handler :: "(str \<Rightarrow> str list \<Rightarrow> py_exception + real) option"
  meteor_handler :: "(str list list \<Rightarrow> str list \<Rightarrow> py_exception + real) option"
  rouge_handler :: "(str \<Rightarrow> str \<Rightarrow> py_exception + RougeScore) option"
  bertscore_handler :: "(str \<Rightarrow> str \<Rightarrow> bool \<Rightarrow> py_exception + real \<times> real \<times> real) option"
  bleurt_handler :: "(str \<Rightarrow> str \<Rightarrow> py_exception + real) option"
  comet_handler :: "(str \<Rightarrow> str \<Rightarrow> str \<Rightarrow> nat \<Rightarrow> nat \<Rightarrow> py_exception + real) option"
  str_lower :: "str \<Rightarrow> str"
  word_tokenize :: "str \<Rightarrow> py_exception + str list"
  torch_mps_is_available :: "py_exception + bool"

text \<open>\<open>except Exception as e: logger.warning(...); return []\<close> around a \<open>try\<close> block.\<close>

definition except_return_empty :: "py_exception + 'a list \<Rightarrow> 'a list" where
  "except_return_empty body = (case body of Inl e \<Rightarrow> [] | Inr result \<Rightarrow> result)"

subsection \<open>Native multi-reference metrics\<close>

definition bleu_try ::
  "(str \<Rightarrow> str list \<Rightarrow> py_exception + BLEUScore) \<Rightarrow> str \<Rightarrow> str list
    \<Rightarrow> py_exception + pyfloat EvaluationScore list" where
  "bleu_try bleu_scorer hypothesis references =
     (case bleu_scorer hypothesis references of
        Inl e \<Rightarrow> Inl e
      | Inr result \<Rightarrow> Inr
          [\<lparr>metric_name = ''BLEU-4'',
            score = Fin (sacre_score result / 100),
            details = [(''raw_score'', DFloat (Fin (sacre_score result))),
                       (''brevity_penalty'', DFloat (Fin (bp result))),
                       (''num_references'', DInt (length references))]\<rparr>])"

definition evaluate_bleu :: "Evaluator \<Rightarrow> str \<Rightarrow> str list \<Rightarrow> pyfloat EvaluationScore list" where
  "evaluate_bleu self hypothesis references =
     (case bleu_handler self of
        None \<Rightarrow> []
      | Some bleu_scorer \<Rightarrow> except_return_empty (bleu_try bleu_scorer hypothesis references))"

definition chrf_try ::
  "(str \<Rightarrow> str list \<Rightarrow> py_exception + real) \<Rightarrow> str \<Rightarrow> str list
    \<Rightarrow> py_exception + pyfloat EvaluationScore list" where
  "chrf_try chrf_scorer hypothesis references =
     (case chrf_scorer hypothesis references of
        Inl e \<Rightarrow> Inl e
      | Inr result_score \<Rightarrow> Inr
          [\<lparr>metric_name = ''chrF++'',
            score = Fin (result_score / 100),
            details = [(''raw_score'', DFloat (Fin result_score)),
                       (''num_references'', DInt (length references)),
                       (''word_order'', DInt 2)]\<rparr>])"

definition evaluate_chrf :: "Evaluator \<Rightarrow> str \<Rightarrow> str list \<Rightarrow> pyfloat EvaluationScore list" where
  "evaluate_chrf self hypothesis references =
     (case chrf_handler self of
        None \<Rightarrow> []
      | Some chrf_scorer \<Rightarrow> except_return_empty (chrf_try chrf_scorer hypothesis references))"

text \<open>The list comprehension \<open>[word_tokenize(ref.lower()) for ref in references]\<close>: the
  first call that raises ends it.\<close>

fun tokenize_all ::
  "(str \<Rightarrow> str) \<Rightarrow> (str \<Rightarrow> py_exception + str list) \<Rightarrow> str list \<Rightarrow> py_exception + str list list" where
  "tokenize_all lower tokenize [] = Inr []"
| "tokenize_all lower tokenize (ref # rest) =
     (case tokenize (lower ref) of
        Inl e \<Rightarrow> Inl e
      | Inr toks \<Rightarrow> (case tokenize_all lower tokenize rest of
                      Inl e \<Rightarrow> Inl e
                    | Inr others \<Rightarrow> Inr (toks # others)))"

definition meteor_try ::
  "Evaluator \<Rightarrow> (str list list \<Rightarrow> str list \<Rightarrow> py_exception + real) \<Rightarrow> str \<Rightarrow> str list
    \<Rightarrow> py_exception + pyfloat EvaluationScore list" where
  "meteor_try self meteor_score_func hypothesis references =
     (case word_tokenize self (str_lower self hypothesis) of
        Inl e \<Rightarrow> Inl e
      | Inr hyp_tokens \<Rightarrow>
          (case tokenize_all (str_lower self) (word_tokenize self) references of
             Inl e \<Rightarrow> Inl e
           | Inr ref_tokens_list \<Rightarrow>
               (case meteor_score_func ref_tokens_list hyp_tokens of
                  Inl e \<Rightarrow> Inl e
                | Inr s \<Rightarrow> Inr
                    [\<lparr>metric_name = ''METEOR'',
                      score = Fin s,
                      details = [(''num_references'', DInt (length references))]\<rparr>])))"

definition evaluate_meteor :: "Evaluator \<Rightarrow> str \<Rightarrow> str list \<Rightarrow> pyfloat EvaluationScore list" where
  "evaluate_meteor self hypothesis references =
     (case meteor_handler self of
        None \<Rightarrow> []
      | Some meteor_score_func \<Rightarrow>
          except_return_empty (meteor_try self meteor_score_func hypothesis references))"

subsection \<open>Max-over-references metrics\<close>

text \<open>
  Each loop \<open>for ref_idx, reference in enumerate(references)\<close> is a recursion over the
  remaining references that carries \<open>ref_idx\<close> and the loop's variables.
\<close>

fun rouge_loop ::
  "(str \<Rightarrow> str \<Rightarrow> py_exception + RougeScore) \<Rightarrow> str \<Rightarrow> str list \<Rightarrow> nat
    \<Rightarrow> RougeScore option \<Rightarrow> nat \<Rightarrow> py_exception + RougeScore option \<times> nat" where
  "rouge_loop scorer hypothesis [] ref_idx best_score best_ref_idx = Inr (best_score, best_ref_idx)"
| "rouge_loop scorer hypothesis (reference # rest) ref_idx best_score best_ref_idx =
     (case scorer reference hypothesis of
        Inl e \<Rightarrow> Inl e
      | Inr score_obj \<Rightarrow>
          (if (case best_score of None \<Rightarrow> True | Some b \<Rightarrow> fmeasure score_obj > fmeasure b)
           then rouge_loop scorer hypothesis rest (ref_idx + 1) (Some score_obj) (ref_idx + 1)
           else rouge_loop scorer hypothesis rest (ref_idx + 1) best_score best_ref_idx))"

text \<open>After the loop, \<open>best_score['fmeasure']\<close> on \<open>None\<close> (no reference) is a TypeError,
  raised inside the \<open>try\<close>.\<close>

definition rouge_try ::
  "(str \<Rightarrow> str \<Rightarrow> py_exception + RougeScore) \<Rightarrow> str \<Rightarrow> str list
    \<Rightarrow> py_exception + pyfloat EvaluationScore list" where
  "rouge_try scorer hypothesis references =
     (case rouge_loop scorer hypothesis references 0 None 0 of
        Inl e \<Rightarrow> Inl e
      | Inr (None, best_ref_idx) \<Rightarrow> Inl (TypeError ''NoneType object is not subscriptable'')
      | Inr (Some best, best_ref_idx) \<Rightarrow> Inr
          [\<lparr>metric_name = ''ROUGE-L'',
            score = Fin (fmeasure best),
            details = [(''precision'', DFloat (Fin (precision best))),
                       (''recall'', DFloat (Fin (recall best))),
                       (''best_reference'', DInt best_ref_idx),
                       (''num_references'', DInt (length references)),
                       (''aggregation'', DStr ''max'')]\<rparr>])"

definition evaluate_rouge :: "Evaluator \<Rightarrow> str \<Rightarrow> str list \<Rightarrow> pyfloat EvaluationScore list" where
  "evaluate_rouge self hypothesis references =
     (case rouge_handler self of
        None \<Rightarrow> []
      | Some scorer \<Rightarrow> except_return_empty (rouge_try scorer hypothesis references))"

text \<open>BERTScore starts from \<open>best_f1 = -1\<close> and \<open>best_result = None\<close>.\<close>

fun bertscore_loop ::
  "(str \<Rightarrow> str \<Rightarrow> bool \<Rightarrow> py_exception + real \<times> real \<times> real) \<Rightarrow> bool \<Rightarrow> str \<Rightarrow> str list
    \<Rightarrow> nat \<Rightarrow> real \<Rightarrow> (real \<times> real \<times> real) option \<Rightarrow> nat
    \<Rightarrow> py_exception + (real \<times> real \<times> real) option \<times> nat" where
  "bertscore_loop bs cuda hypothesis [] ref_idx best_f1 best_result best_ref_idx =
     Inr (best_result, best_ref_idx)"
| "bertscore_loop bs cuda hypothesis (reference # rest) ref_idx best_f1 best_result best_ref_idx =
     (case bs hypothesis reference cuda of
        Inl e \<Rightarrow> Inl e
      | Inr (p, r, f1_val) \<Rightarrow>
          (if f1_val > best_f1
           then bertscore_loop bs cuda hypothesis rest (ref_idx + 1) f1_val (Some (p, r, f1_val))
                  (ref_idx + 1)
           else bertscore_loop bs cuda hypothesis rest (ref_idx + 1) best_f1 best_result
                  best_ref_idx))"

definition bertscore_try ::
  "(str \<Rightarrow> str \<Rightarrow> bool \<Rightarrow> py_exception + real \<times> real \<times> real) \<Rightarrow> bool \<Rightarrow> str \<Rightarrow> str list
    \<Rightarrow> py_exception + pyfloat EvaluationScore list" where
  "bertscore_try bs cuda hypothesis references =
     (case bertscore_loop bs cuda hypothesis references 0 (- 1) None 0 of
        Inl e \<Rightarrow> Inl e
      | Inr (None, best_ref_idx) \<Rightarrow> Inl (TypeError ''NoneType object is not subscriptable'')
      | Inr (Some (p, r, f1), best_ref_idx) \<Rightarrow> Inr
          [\<lparr>metric_name = ''BERTScore'',
            score = Fin f1,
            details = [(''precision'', DFloat (Fin p)),
                       (''recall'', DFloat (Fin r)),
                       (''f1'', DFloat (Fin f1)),
                       (''best_reference'', DInt best_ref_idx),
                       (''num_references'', DInt (length references)),
                       (''aggregation'', DStr ''max'')]\<rparr>])"

definition evaluate_bertscore :: "Evaluator \<Rightarrow> str \<Rightarrow> str list \<Rightarrow> pyfloat EvaluationScore list" where
  "evaluate_bertscore self hypothesis references =
     (case bertscore_handler self of
        None \<Rightarrow> []
      | Some bs \<Rightarrow> except_return_empty (bertscore_try bs (use_gpu self) hypothesis references))"

text \<open>BLEURT and COMET start from \<open>best_score = -float('inf')\<close>.\<close>

fun bleurt_loop ::
  "(str \<Rightarrow> str \<Rightarrow> py_exception + real) \<Rightarrow> str \<Rightarrow> str list \<Rightarrow> nat \<Rightarrow> pyfloat \<Rightarrow> nat
    \<Rightarrow> py_exception + pyfloat \<times> nat" where
  "bleurt_loop scorer hypothesis [] ref_idx best_score best_ref_idx = Inr (best_score, best_ref_idx)"
| "bleurt_loop scorer hypothesis (reference # rest) ref_idx best_score best_ref_idx =
     (case scorer reference hypothesis of
        Inl e \<Rightarrow> Inl e
      | Inr s \<Rightarrow>
          (if float_gt s best_score
           then bleurt_loop scorer hypothesis rest (ref_idx + 1) (Fin s) (ref_idx + 1)
           else bleurt_loop scorer hypothesis rest (ref_idx + 1) best_score best_ref_idx))"

definition bleurt_try ::
  "(str \<Rightarrow> str \<Rightarrow> py_exception + real) \<Rightarrow> str \<Rightarrow> str list
    \<Rightarrow> py_exception + pyfloat EvaluationScore list" where
  "bleurt_try scorer hypothesis references =
     (case bleurt_loop scorer hypothesis references 0 NegInf 0 of
        Inl e \<Rightarrow> Inl e
      | Inr (best_score, best_ref_idx) \<Rightarrow> Inr
          [\<lparr>metric_name = ''BLEURT'',
            score = best_score,
            details = [(''best_reference'', DInt best_ref_idx),
                       (''num_references'', DInt (length references)),
                       (''aggregation'', DStr ''max'')]\<rparr>])"

definition evaluate_bleurt :: "Evaluator \<Rightarrow> str \<Rightarrow> str list \<Rightarrow> pyfloat EvaluationScore list" where
  "evaluate_bleurt self hypothesis references =
     (case bleurt_handler self of
        None \<Rightarrow> []
      | Some scorer \<Rightarrow> except_return_empty (bleurt_try scorer hypothesis references))"

fun comet_loop ::
  "(str \<Rightarrow> str \<Rightarrow> str \<Rightarrow> nat \<Rightarrow> nat \<Rightarrow> py_exception + real) \<Rightarrow> nat \<Rightarrow> nat \<Rightarrow> str \<Rightarrow> str
    \<Rightarrow> str list \<Rightarrow> nat \<Rightarrow> pyfloat \<Rightarrow> nat \<Rightarrow> py_exception + pyfloat \<times> nat" where
  "comet_loop model gpus num_workers source hypothesis [] ref_idx best_score best_ref_idx =
     Inr (best_score, best_ref_idx)"
| "comet_loop model gpus num_workers source hypothesis (reference # rest) ref_idx best_score
     best_ref_idx =
     (case model source hypothesis reference gpus num_workers of
        Inl e \<Rightarrow> Inl e
      | Inr s \<Rightarrow>
          (if float_gt s best_score
           then comet_loop model gpus num_workers source hypothesis rest (ref_idx + 1) (Fin s)
                  (ref_idx + 1)
           else comet_loop model gpus num_workers source hypothesis rest (ref_idx + 1) best_score
                  best_ref_idx))"

definition comet_try ::
  "Evaluator \<Rightarrow> (str \<Rightarrow> str \<Rightarrow> str \<Rightarrow> nat \<Rightarrow> nat \<Rightarrow> py_exception + real) \<Rightarrow> str \<Rightarrow> str list
    \<Rightarrow> str \<Rightarrow> py_exception + pyfloat EvaluationScore list" where
  "comet_try self model hypothesis references source =
     (case torch_mps_is_available self of
        Inl e \<Rightarrow> Inl e
      | Inr mps \<Rightarrow>
          (case comet_loop model (if use_gpu self then 1 else 0) (if mps then 1 else 0)
                  source hypothesis references 0 NegInf 0 of
             Inl e \<Rightarrow> Inl e
           | Inr (best_score, best_ref_idx) \<Rightarrow> Inr
               [\<lparr>metric_name = ''COMET'',
                 score = best_score,
                 details = [(''best_reference'', DInt best_ref_idx),
                            (''num_references'', DInt (length references)),
                            (''aggregation'', DStr ''max'')]\<rparr>]))"

definition evaluate_comet ::
  "Evaluator \<Rightarrow> str \<Rightarrow> str list \<Rightarrow> str \<Rightarrow> pyfloat EvaluationScore list" where
  "evaluate_comet self hypothesis references source =
     (case comet_handler self of
        None \<Rightarrow> []
      | Some model \<Rightarrow> except_return_empty (comet_try self model hypothesis references source))"

subsection \<open>One hypothesis: \<open>evaluate_single\<close> and \<open>evaluate_per_reference\<close>\<close>

text \<open>\<open>source: str = None\<close>; the test \<open>if source:\<close> is false for \<open>None\<close> and for \<open>''\<close>.\<close>

definition evaluate_single ::
  "Evaluator \<Rightarrow> str \<Rightarrow> str list \<Rightarrow> str option \<Rightarrow> pyfloat EvaluationScore list" where
  "evaluate_single self hypothesis references source =
     evaluate_bleu self hypothesis references
     @ evaluate_chrf self hypothesis references
     @ evaluate_meteor self hypothesis references
     @ evaluate_rouge self hypothesis references
     @ evaluate_bertscore self hypothesis references
     @ evaluate_bleurt self hypothesis references
     @ (case source of
          None \<Rightarrow> []
        | Some src \<Rightarrow> if src = [] then [] else evaluate_comet self hypothesis references src)"

text \<open>\<open>str(n)\<close> for a natural number, for the keys \<open>f'ref{ref_idx}'\<close>.\<close>

fun str_nat :: "nat \<Rightarrow> string" where
  "str_nat n =
     (if n < 10 then [''0123456789'' ! n]
      else str_nat (n div 10) @ [''0123456789'' ! (n mod 10)])"

declare str_nat.simps [simp del]

text \<open>The loop of \<open>evaluate_per_reference\<close> over \<open>enumerate(references, 1)\<close>; the keys
  \<open>ref1\<close>, \<open>ref2\<close>, ... differ, so each iteration adds an entry at the end of the dict.\<close>

fun per_reference_loop ::
  "Evaluator \<Rightarrow> str \<Rightarrow> str list \<Rightarrow> nat \<Rightarrow> str option
    \<Rightarrow> (string \<times> pyfloat EvaluationScore list) list" where
  "per_reference_loop self hypothesis [] ref_idx source = []"
| "per_reference_loop self hypothesis (reference # rest) ref_idx source =
     (''ref'' @ str_nat ref_idx,
      evaluate_bleu self hypothesis [reference]
      @ evaluate_chrf self hypothesis [reference]
      @ evaluate_meteor self hypothesis [reference]
      @ evaluate_rouge self hypothesis [reference]
      @ evaluate_bertscore self hypothesis [reference]
      @ evaluate_bleurt self hypothesis [reference]
      @ (case source of
           None \<Rightarrow> []
         | Some src \<Rightarrow> if src = [] then [] else evaluate_comet self hypothesis [reference] src))
     # per_reference_loop self hypothesis rest (ref_idx + 1) source"

definition evaluate_per_reference ::
  "Evaluator \<Rightarrow> str \<Rightarrow> str list \<Rightarrow> str option
    \<Rightarrow> (string \<times> pyfloat EvaluationScore list) list" where
  "evaluate_per_reference self hypothesis references source =
     per_reference_loop self hypothesis references 1 source"

subsection \<open>One chunk: \<open>evaluate_chunk\<close>\<close>

text \<open>\<open>str.isspace\<close> on one code point, and \<open>str.strip()\<close>: the leading and the trailing
  whitespace removed.\<close>

definition is_space :: "nat \<Rightarrow> bool" where
  "is_space c \<longleftrightarrow>
     (9 \<le> c \<and> c \<le> 13) \<or> (28 \<le> c \<and> c \<le> 32) \<or> c = 133 \<or> c = 160 \<or> c = 5760
     \<or> (8192 \<le> c \<and> c \<le> 8202) \<or> c = 8232 \<or> c = 8233 \<or> c = 8239 \<or> c = 8287 \<or> c = 12288"

definition strip :: "str \<Rightarrow> str" where
  "strip s = rev (dropWhile is_space (rev (dropWhile is_space s)))"

text \<open>A dict comprehension \<open>{k: v for ...}\<close>: the pairs are stored in order, a repeated key
  overwrites its value and keeps its place.\<close>

definition dict_comprehension :: "('k \<times> 'v) list \<Rightarrow> ('k \<times> 'v) list" where
  "dict_comprehension items = fold (\<lambda>(k, v) d. AList.update k v d) items []"

definition per_ref_breakdown ::
  "(string \<times> 's EvaluationScore list) list \<Rightarrow> (string \<times> (string \<times> 's) list) list" where
  "per_ref_breakdown per_ref_data =
     fold (\<lambda>(ref_id, ref_scores) per_ref_scores.
             AList.update ref_id
               (dict_comprehension (map (\<lambda>sc. (metric_name sc, score sc)) ref_scores))
               per_ref_scores)
       per_ref_data []"

text \<open>The loop over \<open>model_translations.items()\<close>; \<open>continue\<close> skips an empty or blank
  translation.\<close>

fun evaluate_chunk ::
  "Evaluator \<Rightarrow> string \<Rightarrow> str \<Rightarrow> (string \<times> str) list \<Rightarrow> str list \<Rightarrow> bool
    \<Rightarrow> pyfloat ChunkEvaluation list" where
  "evaluate_chunk self cid source_text [] reference_translations include_per_reference = []"
| "evaluate_chunk self cid source_text ((model, translation) # rest) reference_translations
     include_per_reference =
     (if translation = [] \<or> strip translation = []
      then evaluate_chunk self cid source_text rest reference_translations include_per_reference
      else \<lparr>chunk_id = cid,
            model_name = model,
            scores = evaluate_single self translation reference_translations (Some source_text),
            per_reference_scores =
              (if include_per_reference
               then per_ref_breakdown
                      (evaluate_per_reference self translation reference_translations
                         (Some source_text))
               else [])\<rparr>
           # evaluate_chunk self cid source_text rest reference_translations
               include_per_reference)"

subsection \<open>All chunks: \<open>evaluate_all\<close>\<close>

record ParsedChunk =
  parsed_chunk_id :: string
  greek_text :: str
  reference_translations :: "str list"

text \<open>
  A translation record as \<open>evaluate_all\<close> observes it: \<open>attr_translation\<close> is the value of the
  attribute \<open>translation\<close> when \<open>hasattr(trans_obj, 'translation')\<close>; \<open>dict_items\<close> are the
  items when \<open>isinstance(trans_obj, dict)\<close>; \<open>py_str\<close> is \<open>str(trans_obj)\<close>.
\<close>

record TransObj =
  attr_translation :: "str option"
  dict_items :: "(string \<times> str) list option"
  py_str :: str

definition translation_of :: "TransObj \<Rightarrow> str" where
  "translation_of trans_obj =
     (case attr_translation trans_obj of
        Some t \<Rightarrow> t
      | None \<Rightarrow>
          (case dict_items trans_obj of
             None \<Rightarrow> py_str trans_obj
           | Some items \<Rightarrow>
               (case map_of items ''translation'' of
                  Some t \<Rightarrow> t
                | None \<Rightarrow> py_str trans_obj)))"

definition collect_model_translations :: "(string \<times> TransObj) list \<Rightarrow> (string \<times> str) list" where
  "collect_model_translations items =
     fold (\<lambda>(model, trans_obj) model_translations.
             AList.update model (translation_of trans_obj) model_translations)
       items []"

fun evaluate_all ::
  "Evaluator \<Rightarrow> ParsedChunk list \<Rightarrow> (string \<times> (string \<times> TransObj) list) list
    \<Rightarrow> pyfloat ChunkEvaluation list" where
  "evaluate_all self [] translations = []"
| "evaluate_all self (chunk # rest) translations =
     (case map_of translations (parsed_chunk_id chunk) of
        None \<Rightarrow> evaluate_all self rest translations
      | Some chunk_translations \<Rightarrow>
          evaluate_chunk self (parsed_chunk_id chunk) (greek_text chunk)
            (collect_model_translations chunk_translations)
            (reference_translations chunk) True
          @ evaluate_all self rest translations)"

subsection \<open>Summary statistics: \<open>aggregate_results\<close>\<close>

text \<open>
  The summary is modelled on finite scores, as exact reals. \<open>np.mean\<close>, \<open>np.std\<close>
  (population standard deviation), \<open>np.min\<close> and \<open>np.max\<close> are only called on non-empty
  lists: no list of the grouped dictionary is empty (lemma \<open>map_of_grouped\<close> below).
\<close>

definition np_mean :: "real list \<Rightarrow> real" where
  "np_mean xs = sum_list xs / real (length xs)"

definition np_std :: "real list \<Rightarrow> real" where
  "np_std xs = sqrt (np_mean (map (\<lambda>x. (abs (x - np_mean xs))\<^sup>2) xs))"

definition np_min :: "real list \<Rightarrow> real" where
  "np_min xs = Min (set xs)"

definition np_max :: "real list \<Rightarrow> real" where
  "np_max xs = Max (set xs)"

text \<open>\<open>d[k].append(v)\<close> on a \<open>defaultdict(list)\<close>, and \<open>d[k]\<close> followed by a change \<open>f\<close> of the
  inner dictionary on a \<open>defaultdict\<close> of dictionaries.\<close>

definition dd_append :: "'k \<Rightarrow> 'v \<Rightarrow> ('k \<times> 'v list) list \<Rightarrow> ('k \<times> 'v list) list" where
  "dd_append k v d = AList.update k ((case map_of d k of None \<Rightarrow> [] | Some l \<Rightarrow> l) @ [v]) d"

definition dd_modify ::
  "'k \<Rightarrow> (('j \<times> 'w) list \<Rightarrow> ('j \<times> 'w) list) \<Rightarrow> ('k \<times> ('j \<times> 'w) list) list
    \<Rightarrow> ('k \<times> ('j \<times> 'w) list) list" where
  "dd_modify k f d = AList.update k (f (case map_of d k of None \<Rightarrow> [] | Some inner \<Rightarrow> inner)) d"

definition scores_by_model_metric ::
  "real ChunkEvaluation list \<Rightarrow> (string \<times> (string \<times> real list) list) list" where
  "scores_by_model_metric evaluations =
     fold (\<lambda>eval d.
             fold (\<lambda>sc. dd_modify (model_name eval) (dd_append (metric_name sc) (score sc)))
               (scores eval) d)
       evaluations []"

definition per_ref_by_model_metric ::
  "real ChunkEvaluation list \<Rightarrow> (string \<times> (string \<times> (string \<times> real list) list) list) list" where
  "per_ref_by_model_metric evaluations =
     fold (\<lambda>eval d.
             fold (\<lambda>(ref_id, ref_scores) d1.
                     fold (\<lambda>(metric, score_val).
                             dd_modify (model_name eval)
                               (dd_modify metric (dd_append ref_id score_val)))
                       ref_scores d1)
               (per_reference_scores eval) d)
       evaluations []"

record Stats =
  stat_mean :: real
  stat_std :: real
  stat_min :: real
  stat_max :: real
  stat_count :: nat

definition stats_of :: "real list \<Rightarrow> Stats" where
  "stats_of xs =
     \<lparr>stat_mean = np_mean xs, stat_std = np_std xs, stat_min = np_min xs,
      stat_max = np_max xs, stat_count = length xs\<rparr>"

definition by_model_of ::
  "(string \<times> (string \<times> real list) list) list \<Rightarrow> (string \<times> (string \<times> Stats) list) list" where
  "by_model_of sbmm =
     map (\<lambda>(model, by_metric). (model, map (\<lambda>(metric, xs). (metric, stats_of xs)) by_metric)) sbmm"

text \<open>\<open>all_model_scores\<close> is extended by each metric's list in turn.\<close>

definition model_averages_of ::
  "(string \<times> (string \<times> real list) list) list \<Rightarrow> (string \<times> real) list" where
  "model_averages_of sbmm =
     map (\<lambda>(model, by_metric).
            (model,
             let all_model_scores = concat (map snd by_metric)
             in if all_model_scores = [] then 0 else np_mean all_model_scores))
       sbmm"

text \<open>\<open>sorted(items, key=..., reverse=True)\<close>: a stable sort in descending order; CPython
  reverses the list, sorts it stably and reverses the result.\<close>

definition sorted_reverse :: "('a \<Rightarrow> real) \<Rightarrow> 'a list \<Rightarrow> 'a list" where
  "sorted_reverse key xs = rev (sort_key key (rev xs))"

text \<open>\<open>max(items, key=...)\<close> on a non-empty list: the first item with the greatest key.\<close>

fun max_from :: "('a \<Rightarrow> real) \<Rightarrow> 'a \<Rightarrow> 'a list \<Rightarrow> 'a" where
  "max_from key best [] = best"
| "max_from key best (x # xs) = (if key x > key best then max_from key x xs else max_from key best xs)"

datatype by_metric_entry = ModelMean real | BestModel string real

definition metric_means_of ::
  "(string \<times> (string \<times> real list) list) list \<Rightarrow> (string \<times> (string \<times> real) list) list" where
  "metric_means_of sbmm =
     fold (\<lambda>(model, by_metric) d.
             fold (\<lambda>(metric, xs). dd_modify metric (AList.update model (np_mean xs))) by_metric d)
       sbmm []"

definition with_best_model :: "(string \<times> real) list \<Rightarrow> (string \<times> by_metric_entry) list" where
  "with_best_model means =
     (let entries = map (\<lambda>(k, v). (k, ModelMean v)) means;
          model_scores = filter (\<lambda>(k, v). k \<noteq> ''best_model'') means
      in case model_scores of
           [] \<Rightarrow> entries
         | first # others \<Rightarrow>
             (let best_model = max_from snd first others
              in AList.update ''best_model'' (BestModel (fst best_model) (snd best_model)) entries))"

definition by_metric_of ::
  "(string \<times> (string \<times> real list) list) list
    \<Rightarrow> (string \<times> (string \<times> by_metric_entry) list) list" where
  "by_metric_of sbmm = map (\<lambda>(metric, means). (metric, with_best_model means)) (metric_means_of sbmm)"

record RefStats =
  ref_mean :: real
  ref_std :: real
  ref_count :: nat

definition by_reference_of ::
  "(string \<times> (string \<times> (string \<times> real list) list) list) list
    \<Rightarrow> (string \<times> (string \<times> (string \<times> RefStats) list) list) list" where
  "by_reference_of prbmm =
     map (\<lambda>(model, by_metric).
            (model,
             map (\<lambda>(metric, by_ref).
                    (metric,
                     map (\<lambda>(ref_id, xs).
                            (ref_id, \<lparr>ref_mean = np_mean xs, ref_std = np_std xs,
                                      ref_count = length xs\<rparr>))
                       by_ref))
               by_metric))
       prbmm"

text \<open>\<open>ChunkEvaluation.to_dict\<close>; \<open>score_details\<close> keeps the metrics whose \<open>details\<close> are not
  empty.\<close>

record DetailedScore =
  ds_chunk_id :: string
  ds_model_name :: string
  ds_scores :: "(string \<times> real) list"
  ds_score_details :: "(string \<times> (string \<times> real detail_value) list) list"
  ds_per_reference_scores :: "(string \<times> (string \<times> real) list) list"

definition to_dict :: "real ChunkEvaluation \<Rightarrow> DetailedScore" where
  "to_dict eval =
     \<lparr>ds_chunk_id = chunk_id eval,
      ds_model_name = model_name eval,
      ds_scores = dict_comprehension (map (\<lambda>sc. (metric_name sc, score sc)) (scores eval)),
      ds_score_details =
        dict_comprehension
          (map (\<lambda>sc. (metric_name sc, details sc)) (filter (\<lambda>sc. details sc \<noteq> []) (scores eval))),
      ds_per_reference_scores = per_reference_scores eval\<rparr>"

text \<open>The summary, without the constant \<open>methodology\<close> texts.\<close>

record Summary =
  by_model :: "(string \<times> (string \<times> Stats) list) list"
  by_metric :: "(string \<times> (string \<times> by_metric_entry) list) list"
  by_reference :: "(string \<times> (string \<times> (string \<times> RefStats) list) list) list"
  overall_rankings :: "(string \<times> real) list"
  detailed_scores :: "DetailedScore list"

definition aggregate_results :: "real ChunkEvaluation list \<Rightarrow> Summary" where
  "aggregate_results evaluations =
     (let sbmm = scores_by_model_metric evaluations
      in \<lparr>by_model = by_model_of sbmm,
          by_metric = by_metric_of sbmm,
          by_reference = by_reference_of (per_ref_by_model_metric evaluations),
          overall_rankings = sorted_reverse snd (model_averages_of sbmm),
          detailed_scores = map to_dict evaluations\<rparr>)"

subsection \<open>The summary with numpy's functions as parameters\<close>

text \<open>
  \<open>np.mean\<close> and \<open>np.std\<close> are numpy's, and they work on floating-point numbers: the
  value they return for a list of scores can depend on the order of the list. The
  functions below are \<open>aggregate_results\<close> and its parts with the two as parameters
  \<open>mean\<close> and \<open>std\<close>, of which nothing is assumed; \<open>aggregate_results\<close> above is the
  instance at the exact mean and the exact population standard deviation (lemma
  \<open>aggregate_results_with_np\<close>). \<open>np.min\<close> and \<open>np.max\<close> return an element of the list
  and do not round.
\<close>

definition stats_with :: "(real list \<Rightarrow> real) \<Rightarrow> (real list \<Rightarrow> real) \<Rightarrow> real list \<Rightarrow> Stats" where
  "stats_with mean std xs =
     \<lparr>stat_mean = mean xs, stat_std = std xs, stat_min = np_min xs,
      stat_max = np_max xs, stat_count = length xs\<rparr>"

definition by_model_with ::
  "(real list \<Rightarrow> real) \<Rightarrow> (real list \<Rightarrow> real) \<Rightarrow> (string \<times> (string \<times> real list) list) list
    \<Rightarrow> (string \<times> (string \<times> Stats) list) list" where
  "by_model_with mean std sbmm =
     map (\<lambda>(model, by_metric).
            (model, map (\<lambda>(metric, xs). (metric, stats_with mean std xs)) by_metric)) sbmm"

definition model_averages_with ::
  "(real list \<Rightarrow> real) \<Rightarrow> (string \<times> (string \<times> real list) list) list \<Rightarrow> (string \<times> real) list" where
  "model_averages_with mean sbmm =
     map (\<lambda>(model, by_metric).
            (model,
             let all_model_scores = concat (map snd by_metric)
             in if all_model_scores = [] then 0 else mean all_model_scores))
       sbmm"

definition metric_means_with ::
  "(real list \<Rightarrow> real) \<Rightarrow> (string \<times> (string \<times> real list) list) list
    \<Rightarrow> (string \<times> (string \<times> real) list) list" where
  "metric_means_with mean sbmm =
     fold (\<lambda>(model, by_metric) d.
             fold (\<lambda>(metric, xs). dd_modify metric (AList.update model (mean xs))) by_metric d)
       sbmm []"

definition by_metric_with ::
  "(real list \<Rightarrow> real) \<Rightarrow> (string \<times> (string \<times> real list) list) list
    \<Rightarrow> (string \<times> (string \<times> by_metric_entry) list) list" where
  "by_metric_with mean sbmm =
     map (\<lambda>(metric, means). (metric, with_best_model means)) (metric_means_with mean sbmm)"

definition by_reference_with ::
  "(real list \<Rightarrow> real) \<Rightarrow> (real list \<Rightarrow> real)
    \<Rightarrow> (string \<times> (string \<times> (string \<times> real list) list) list) list
    \<Rightarrow> (string \<times> (string \<times> (string \<times> RefStats) list) list) list" where
  "by_reference_with mean std prbmm =
     map (\<lambda>(model, by_metric).
            (model,
             map (\<lambda>(metric, by_ref).
                    (metric,
                     map (\<lambda>(ref_id, xs).
                            (ref_id, \<lparr>ref_mean = mean xs, ref_std = std xs,
                                      ref_count = length xs\<rparr>))
                       by_ref))
               by_metric))
       prbmm"

definition aggregate_results_with ::
  "(real list \<Rightarrow> real) \<Rightarrow> (real list \<Rightarrow> real) \<Rightarrow> real ChunkEvaluation list \<Rightarrow> Summary" where
  "aggregate_results_with mean std evaluations =
     (let sbmm = scores_by_model_metric evaluations
      in \<lparr>by_model = by_model_with mean std sbmm,
          by_metric = by_metric_with mean sbmm,
          by_reference = by_reference_with mean std (per_ref_by_model_metric evaluations),
          overall_rankings = sorted_reverse snd (model_averages_with mean sbmm),
          detailed_scores = map to_dict evaluations\<rparr>)"

subsection \<open>Vocabulary of the statements and of the proofs\<close>

text \<open>The keys of \<open>metric_handlers\<close>, the metric name each one reports, the evaluator
  without one handler, and a handler that raises on every call.\<close>

datatype metric_key = Bleu | Chrf | Meteor | Rouge | Bertscore | Bleurt | Comet

fun metric_label :: "metric_key \<Rightarrow> string" where
  "metric_label Bleu = ''BLEU-4''"
| "metric_label Chrf = ''chrF++''"
| "metric_label Meteor = ''METEOR''"
| "metric_label Rouge = ''ROUGE-L''"
| "metric_label Bertscore = ''BERTScore''"
| "metric_label Bleurt = ''BLEURT''"
| "metric_label Comet = ''COMET''"

fun remove_handler :: "metric_key \<Rightarrow> Evaluator \<Rightarrow> Evaluator" where
  "remove_handler Bleu self = self\<lparr>bleu_handler := None\<rparr>"
| "remove_handler Chrf self = self\<lparr>chrf_handler := None\<rparr>"
| "remove_handler Meteor self = self\<lparr>meteor_handler := None\<rparr>"
| "remove_handler Rouge self = self\<lparr>rouge_handler := None\<rparr>"
| "remove_handler Bertscore self = self\<lparr>bertscore_handler := None\<rparr>"
| "remove_handler Bleurt self = self\<lparr>bleurt_handler := None\<rparr>"
| "remove_handler Comet self = self\<lparr>comet_handler := None\<rparr>"

fun always_raises :: "metric_key \<Rightarrow> Evaluator \<Rightarrow> bool" where
  "always_raises Bleu self =
     (case bleu_handler self of None \<Rightarrow> False | Some f \<Rightarrow> (\<forall>h refs. isl (f h refs)))"
| "always_raises Chrf self =
     (case chrf_handler self of None \<Rightarrow> False | Some f \<Rightarrow> (\<forall>h refs. isl (f h refs)))"
| "always_raises Meteor self =
     (case meteor_handler self of None \<Rightarrow> False | Some f \<Rightarrow> (\<forall>refs h. isl (f refs h)))"
| "always_raises Rouge self =
     (case rouge_handler self of None \<Rightarrow> False | Some f \<Rightarrow> (\<forall>r h. isl (f r h)))"
| "always_raises Bertscore self =
     (case bertscore_handler self of None \<Rightarrow> False | Some f \<Rightarrow> (\<forall>h r c. isl (f h r c)))"
| "always_raises Bleurt self =
     (case bleurt_handler self of None \<Rightarrow> False | Some f \<Rightarrow> (\<forall>r h. isl (f r h)))"
| "always_raises Comet self =
     (case comet_handler self of None \<Rightarrow> False | Some f \<Rightarrow> (\<forall>s h r g n. isl (f s h r g n)))"

text \<open>A text is blank when \<open>not t or t.strip() == ''\<close>.\<close>

definition blank :: "str \<Rightarrow> bool" where
  "blank t \<longleftrightarrow> t = [] \<or> strip t = []"

text \<open>The loops of BLEURT and COMET on the values the scorer returns, when no call raises.\<close>

fun max_loop :: "real list \<Rightarrow> nat \<Rightarrow> pyfloat \<Rightarrow> nat \<Rightarrow> pyfloat \<times> nat" where
  "max_loop [] ref_idx best_score best_ref_idx = (best_score, best_ref_idx)"
| "max_loop (s # rest) ref_idx best_score best_ref_idx =
     (if float_gt s best_score then max_loop rest (ref_idx + 1) (Fin s) (ref_idx + 1)
      else max_loop rest (ref_idx + 1) best_score best_ref_idx)"

text \<open>All scores of a model, and its scores for one metric, over a collection of
  evaluations in their order; what the grouped dictionary holds for a model and a metric
  (the empty list when an entry is missing); the statistics and the best model that a
  summary reports.\<close>

definition model_scores :: "real ChunkEvaluation list \<Rightarrow> string \<Rightarrow> real list" where
  "model_scores evaluations model =
     concat (map (\<lambda>eval. map score (scores eval))
               (filter (\<lambda>eval. model_name eval = model) evaluations))"

definition metric_scores :: "real ChunkEvaluation list \<Rightarrow> string \<Rightarrow> string \<Rightarrow> real list" where
  "metric_scores evaluations model metric =
     concat (map (\<lambda>eval. map score (filter (\<lambda>sc. metric_name sc = metric) (scores eval)))
               (filter (\<lambda>eval. model_name eval = model) evaluations))"

definition triples :: "real ChunkEvaluation list \<Rightarrow> (string \<times> string \<times> real) list" where
  "triples evaluations =
     concat (map (\<lambda>eval. map (\<lambda>sc. (model_name eval, metric_name sc, score sc)) (scores eval))
               evaluations)"

definition entry :: "('k \<times> ('j \<times> 'w) list) list \<Rightarrow> 'k \<Rightarrow> ('j \<times> 'w) list" where
  "entry d k = (case map_of d k of None \<Rightarrow> [] | Some inner \<Rightarrow> inner)"

definition scores_of :: "(string \<times> (string \<times> real list) list) list \<Rightarrow> string \<Rightarrow> string \<Rightarrow> real list" where
  "scores_of d model metric =
     (case map_of (entry d model) metric of None \<Rightarrow> [] | Some xs \<Rightarrow> xs)"

definition by_model_lookup :: "Summary \<Rightarrow> string \<Rightarrow> string \<Rightarrow> Stats option" where
  "by_model_lookup summary model metric = map_of (entry (by_model summary) model) metric"

definition best_model_of :: "Summary \<Rightarrow> string \<Rightarrow> (string \<times> real) option" where
  "best_model_of summary metric =
     (case map_of (entry (by_metric summary) metric) ''best_model'' of
        Some (BestModel name s) \<Rightarrow> Some (name, s)
      | _ \<Rightarrow> None)"

text \<open>The body of the grouping loop of \<open>aggregate_results\<close> for one score.\<close>

definition group_step ::
  "string \<times> string \<times> real \<Rightarrow> (string \<times> (string \<times> real list) list) list
    \<Rightarrow> (string \<times> (string \<times> real list) list) list" where
  "group_step t d = (case t of (model, metric, s) \<Rightarrow> dd_modify model (dd_append metric s) d)"

text \<open>The entries of the grouped dictionary in the order in which the loop over models
  and metrics visits them, and the body of that loop in \<open>Per-metric best models\<close>.\<close>

definition cells ::
  "(string \<times> (string \<times> real list) list) list \<Rightarrow> (string \<times> string \<times> real list) list" where
  "cells sbmm =
     concat (map (\<lambda>(model, by_metric). map (\<lambda>(metric, xs). (model, metric, xs)) by_metric) sbmm)"

definition cell_step_with ::
  "(real list \<Rightarrow> real) \<Rightarrow> string \<times> string \<times> real list \<Rightarrow> (string \<times> (string \<times> real) list) list
    \<Rightarrow> (string \<times> (string \<times> real) list) list" where
  "cell_step_with mean c d =
     (case c of (model, metric, xs) \<Rightarrow> dd_modify metric (AList.update model (mean xs)) d)"

text \<open>The elements of a list in the order of their first occurrence; the models in the
  order in which the grouping loop meets their first score; \<open>all_model_scores\<close> as the
  ranking loop builds it for a model, from the grouped dictionary.\<close>

fun first_seen :: "'a list \<Rightarrow> 'a list" where
  "first_seen [] = []"
| "first_seen (x # xs) = x # filter (\<lambda>y. y \<noteq> x) (first_seen xs)"

definition scored_models :: "real ChunkEvaluation list \<Rightarrow> string list" where
  "scored_models evaluations = first_seen (map fst (triples evaluations))"

definition all_model_scores :: "real ChunkEvaluation list \<Rightarrow> string \<Rightarrow> real list" where
  "all_model_scores evaluations model =
     concat (map snd (entry (scores_by_model_metric evaluations) model))"

text \<open>The candidates for the best model of a metric, in the order in which \<open>max\<close> visits
  them: the models that have a score for it, in the order of \<open>scored_models\<close>, with their
  mean; a model called \<open>best_model\<close> is filtered out by the source.\<close>

definition metric_candidates ::
  "(real list \<Rightarrow> real) \<Rightarrow> real ChunkEvaluation list \<Rightarrow> string \<Rightarrow> (string \<times> real) list" where
  "metric_candidates mean evaluations metric =
     map (\<lambda>m. (m, mean (metric_scores evaluations m metric)))
       (filter (\<lambda>m. metric_scores evaluations m metric \<noteq> [] \<and> m \<noteq> ''best_model'')
          (scored_models evaluations))"

text \<open>A score in the closed interval from 0 to 1.\<close>

fun in_unit :: "pyfloat \<Rightarrow> bool" where
  "in_unit NegInf = False"
| "in_unit (Fin x) = (0 \<le> x \<and> x \<le> 1)"

subsection \<open>Concrete inputs\<close>

definition no_metrics :: Evaluator where
  "no_metrics =
     \<lparr>use_gpu = False, bleu_handler = None, chrf_handler = None, meteor_handler = None,
      rouge_handler = None, bertscore_handler = None, bleurt_handler = None,
      comet_handler = None, str_lower = (\<lambda>s. s), word_tokenize = (\<lambda>s. Inr [s]),
      torch_mps_is_available = Inr False\<rparr>"

text \<open>Stubs: BLEU returns 50, chrF++ raises, ROUGE-L returns 1 on an exact match and 1/2
  otherwise, BLEURT returns 5/2, COMET returns -3/2.\<close>

definition stub_metrics :: Evaluator where
  "stub_metrics =
     no_metrics
       \<lparr>bleu_handler := Some (\<lambda>h refs. Inr \<lparr>sacre_score = 50, bp = 1\<rparr>),
        chrf_handler := Some (\<lambda>h refs. Inl (LibraryError ''chrf unavailable'')),
        rouge_handler :=
          Some (\<lambda>r h. Inr \<lparr>precision = 1, recall = 1, fmeasure = (if r = h then 1 else 1 / 2)\<rparr>),
        bleurt_handler := Some (\<lambda>r h. Inr (5 / 2)),
        comet_handler := Some (\<lambda>s h r g n. Inr (- 3 / 2))\<rparr>"

text \<open>A BLEU stub that returns 100.00000000000004, the value that SacreBLEU computes for
  a hypothesis equal to its reference.\<close>

definition bleu_exact_match :: Evaluator where
  "bleu_exact_match =
     no_metrics
       \<lparr>bleu_handler :=
          Some (\<lambda>h refs. Inr \<lparr>sacre_score = 10000000000000004 / 100000000000000, bp = 1\<rparr>)\<rparr>"

text \<open>A BERTScore stub with precision, recall and F1 equal to -1 for every pair
  (\<open>2 P R / (P + R) = -1\<close>).\<close>

definition bert_low :: Evaluator where
  "bert_low = no_metrics\<lparr>bertscore_handler := Some (\<lambda>h r cuda. Inr (- 1, - 1, - 1))\<rparr>"

definition comet_only :: Evaluator where
  "comet_only = no_metrics\<lparr>comet_handler := Some (\<lambda>s h r g n. Inr (1 / 2))\<rparr>"

definition hyp1 :: str where "hyp1 = text_of ''The sky is blue.''"
definition ref1 :: str where "ref1 = text_of ''The sky is blue.''"
definition ref2 :: str where "ref2 = text_of ''Heaven is blue.''"
definition greek1 :: str where "greek1 = [959, 8016, 961, 945, 957, 972, 962]"

definition chunk1 :: ParsedChunk where
  "chunk1 = \<lparr>parsed_chunk_id = ''c1'', greek_text = greek1, reference_translations = [ref1, ref2]\<rparr>"

text \<open>A record that is a plain string: no attribute \<open>translation\<close>, not a dict.\<close>

definition plain_record :: TransObj where
  "plain_record = \<lparr>attr_translation = None, dict_items = None, py_str = hyp1\<rparr>"

definition eval_of :: "string \<Rightarrow> string \<Rightarrow> (string \<times> real) list \<Rightarrow> real ChunkEvaluation" where
  "eval_of cid model named_scores =
     \<lparr>chunk_id = cid, model_name = model,
      scores = map (\<lambda>(n, s). \<lparr>metric_name = n, score = s, details = []\<rparr>) named_scores,
      per_reference_scores = []\<rparr>"

text \<open>Model A has three scores, 1, 0 and 0 (mean 1/3; the mean of its two per-metric means
  is 1/2); model B has two scores 1/2.\<close>

definition ranking_example :: "real ChunkEvaluation list" where
  "ranking_example =
     [eval_of ''c1'' ''A'' [(''BLEU-4'', 1), (''ROUGE-L'', 0)],
      eval_of ''c2'' ''A'' [(''ROUGE-L'', 0)],
      eval_of ''c1'' ''B'' [(''BLEU-4'', 1 / 2), (''ROUGE-L'', 1 / 2)]]"

text \<open>Two models with the same single score.\<close>

definition tie_AB :: "real ChunkEvaluation list" where
  "tie_AB = [eval_of ''c1'' ''A'' [(''BLEU-4'', 1 / 2)], eval_of ''c1'' ''B'' [(''BLEU-4'', 1 / 2)]]"

definition tie_BA :: "real ChunkEvaluation list" where
  "tie_BA = [eval_of ''c1'' ''B'' [(''BLEU-4'', 1 / 2)], eval_of ''c1'' ''A'' [(''BLEU-4'', 1 / 2)]]"

text \<open>
  IEEE 754 binary64 arithmetic on the reals, overflow apart: \<open>float64 x\<close> is the float64
  value nearest to \<open>x\<close>, with 53 significant bits (fewer for a subnormal value), a tie going to
  the even significand. \<open>float64_mean\<close> adds the values from left to right, starting from
  0, and divides the sum by their number, every result rounded: the value of \<open>np.mean\<close> on
  a short list of float64 numbers.
\<close>

definition round_half_even :: "real \<Rightarrow> int" where
  "round_half_even x =
     (let n = \<lfloor>x\<rfloor>; r = x - of_int n
      in if r < 1 / 2 then n else if r > 1 / 2 then n + 1 else if even n then n else n + 1)"

definition float64 :: "real \<Rightarrow> real" where
  "float64 x =
     (if x = 0 then 0
      else let e = max (\<lfloor>log 2 \<bar>x\<bar>\<rfloor> - 52) (- 1074)
           in of_int (round_half_even (x / 2 powr of_int e)) * 2 powr of_int e)"

definition float64_mean :: "real list \<Rightarrow> real" where
  "float64_mean xs = float64 (fold (\<lambda>x s. float64 (s + x)) xs 0 / real (length xs))"

text \<open>The float64 values of the literals \<open>0.1\<close>, \<open>0.2\<close> and \<open>0.3\<close>, and three evaluations of
  one model that hold them.\<close>

definition f01 :: real where "f01 = 3602879701896397 / 36028797018963968"
definition f02 :: real where "f02 = 3602879701896397 / 18014398509481984"
definition f03 :: real where "f03 = 5404319552844595 / 18014398509481984"

definition rounding_example :: "real ChunkEvaluation list" where
  "rounding_example =
     [eval_of ''c1'' ''A'' [(''BLEU-4'', f01)],
      eval_of ''c2'' ''A'' [(''BLEU-4'', f02)],
      eval_of ''c3'' ''A'' [(''BLEU-4'', f03)]]"

section \<open>The scoring layer\<close>

subsection \<open>A scorer that raises\<close>

lemma isl_conv: "isl x \<longleftrightarrow> (\<exists>e. x = Inl e)"
  by (cases x) auto

lemma isl_not_Inr: "isl x \<Longrightarrow> x \<noteq> Inr y"
  by (cases x) auto

lemma raises_bleu:
  assumes "always_raises Bleu self"
  shows "evaluate_bleu self h refs = []"
proof -
  obtain f where f: "bleu_handler self = Some f" "\<And>h refs. isl (f h refs)"
    using assms by (auto split: option.splits)
  note f(2) [THEN isl_not_Inr, simp]
  show ?thesis
    by (simp add: f(1) evaluate_bleu_def bleu_try_def except_return_empty_def split: sum.split)
qed

lemma raises_chrf:
  assumes "always_raises Chrf self"
  shows "evaluate_chrf self h refs = []"
proof -
  obtain f where f: "chrf_handler self = Some f" "\<And>h refs. isl (f h refs)"
    using assms by (auto split: option.splits)
  note f(2) [THEN isl_not_Inr, simp]
  show ?thesis
    by (simp add: f(1) evaluate_chrf_def chrf_try_def except_return_empty_def split: sum.split)
qed

lemma raises_meteor:
  assumes "always_raises Meteor self"
  shows "evaluate_meteor self h refs = []"
proof -
  obtain f where f: "meteor_handler self = Some f" "\<And>refs h. isl (f refs h)"
    using assms by (auto split: option.splits)
  note f(2) [THEN isl_not_Inr, simp]
  show ?thesis
    by (simp add: f(1) evaluate_meteor_def meteor_try_def except_return_empty_def
        split: sum.split)
qed

lemma raises_rouge:
  assumes "always_raises Rouge self"
  shows "evaluate_rouge self h refs = []"
proof -
  obtain f where f: "rouge_handler self = Some f" "\<And>r h. isl (f r h)"
    using assms by (auto split: option.splits)
  note f(2) [THEN isl_not_Inr, simp]
  show ?thesis
    by (cases refs)
      (simp_all add: f(1) evaluate_rouge_def rouge_try_def except_return_empty_def
        split: sum.split)
qed

lemma raises_bertscore:
  assumes "always_raises Bertscore self"
  shows "evaluate_bertscore self h refs = []"
proof -
  obtain f where f: "bertscore_handler self = Some f" "\<And>h r c. isl (f h r c)"
    using assms by (auto split: option.splits)
  note f(2) [THEN isl_not_Inr, simp]
  show ?thesis
    by (cases refs)
      (simp_all add: f(1) evaluate_bertscore_def bertscore_try_def except_return_empty_def
        split: sum.split)
qed

lemma raises_bleurt:
  assumes "always_raises Bleurt self" "refs \<noteq> []"
  shows "evaluate_bleurt self h refs = []"
proof -
  obtain f where f: "bleurt_handler self = Some f" "\<And>r h. isl (f r h)"
    using assms by (auto split: option.splits)
  note f(2) [THEN isl_not_Inr, simp]
  show ?thesis
    using assms(2)
    by (cases refs)
      (simp_all add: f(1) evaluate_bleurt_def bleurt_try_def except_return_empty_def
        split: sum.split)
qed

lemma raises_comet:
  assumes "always_raises Comet self" "refs \<noteq> []"
  shows "evaluate_comet self h refs src = []"
proof -
  obtain f where f: "comet_handler self = Some f" "\<And>s h r g n. isl (f s h r g n)"
    using assms by (auto split: option.splits)
  note f(2) [THEN isl_not_Inr, simp]
  show ?thesis
    using assms(2)
    by (cases refs)
      (simp_all add: f(1) evaluate_comet_def comet_try_def except_return_empty_def
        split: sum.split)
qed

lemma meteor_try_removed:
  "meteor_try (remove_handler k self) f h refs = meteor_try self f h refs"
  by (cases k) (simp_all add: meteor_try_def cong: sum.case_cong)

lemma comet_try_removed:
  "comet_try (remove_handler k self) f h refs src = comet_try self f h refs src"
  by (cases k) (simp_all add: comet_try_def cong: sum.case_cong)

lemma removed_bleu:
  "evaluate_bleu (remove_handler k self) h refs = (if k = Bleu then [] else evaluate_bleu self h refs)"
  by (cases k) (simp_all add: evaluate_bleu_def cong: option.case_cong)
lemma removed_chrf:
  "evaluate_chrf (remove_handler k self) h refs = (if k = Chrf then [] else evaluate_chrf self h refs)"
  by (cases k) (simp_all add: evaluate_chrf_def cong: option.case_cong)
lemma removed_meteor:
  "evaluate_meteor (remove_handler k self) h refs = (if k = Meteor then [] else evaluate_meteor self h refs)"
  by (cases k) (simp_all add: evaluate_meteor_def meteor_try_def cong: sum.case_cong option.case_cong)
lemma removed_rouge:
  "evaluate_rouge (remove_handler k self) h refs = (if k = Rouge then [] else evaluate_rouge self h refs)"
  by (cases k) (simp_all add: evaluate_rouge_def cong: option.case_cong)
lemma removed_bertscore:
  "evaluate_bertscore (remove_handler k self) h refs = (if k = Bertscore then [] else evaluate_bertscore self h refs)"
  by (cases k) (simp_all add: evaluate_bertscore_def cong: option.case_cong)
lemma removed_bleurt:
  "evaluate_bleurt (remove_handler k self) h refs = (if k = Bleurt then [] else evaluate_bleurt self h refs)"
  by (cases k) (simp_all add: evaluate_bleurt_def cong: option.case_cong)
lemma removed_comet:
  "evaluate_comet (remove_handler k self) h refs src = (if k = Comet then [] else evaluate_comet self h refs src)"
  by (cases k) (simp_all add: evaluate_comet_def comet_try_def cong: sum.case_cong option.case_cong)

lemmas removed = removed_bleu removed_chrf removed_meteor removed_rouge removed_bertscore
  removed_bleurt removed_comet

lemma names_bleu:
  "map metric_name (evaluate_bleu self h refs) = []
   \<or> map metric_name (evaluate_bleu self h refs) = [''BLEU-4'']"
  by (simp add: evaluate_bleu_def bleu_try_def except_return_empty_def
      split: option.split sum.split prod.split)

lemma names_bleu_set: "sc \<in> set (evaluate_bleu self h refs) \<Longrightarrow> metric_name sc = ''BLEU-4''"
  using names_bleu [of self h refs] by auto

lemma names_chrf:
  "map metric_name (evaluate_chrf self h refs) = []
   \<or> map metric_name (evaluate_chrf self h refs) = [''chrF++'']"
  by (simp add: evaluate_chrf_def chrf_try_def except_return_empty_def
      split: option.split sum.split prod.split)

lemma names_chrf_set: "sc \<in> set (evaluate_chrf self h refs) \<Longrightarrow> metric_name sc = ''chrF++''"
  using names_chrf [of self h refs] by auto

lemma names_meteor:
  "map metric_name (evaluate_meteor self h refs) = []
   \<or> map metric_name (evaluate_meteor self h refs) = [''METEOR'']"
  by (simp add: evaluate_meteor_def meteor_try_def except_return_empty_def
      split: option.split sum.split prod.split)

lemma names_meteor_set: "sc \<in> set (evaluate_meteor self h refs) \<Longrightarrow> metric_name sc = ''METEOR''"
  using names_meteor [of self h refs] by auto

lemma names_rouge:
  "map metric_name (evaluate_rouge self h refs) = []
   \<or> map metric_name (evaluate_rouge self h refs) = [''ROUGE-L'']"
  by (simp add: evaluate_rouge_def rouge_try_def except_return_empty_def
      split: option.split sum.split prod.split)

lemma names_rouge_set: "sc \<in> set (evaluate_rouge self h refs) \<Longrightarrow> metric_name sc = ''ROUGE-L''"
  using names_rouge [of self h refs] by auto

lemma names_bertscore:
  "map metric_name (evaluate_bertscore self h refs) = []
   \<or> map metric_name (evaluate_bertscore self h refs) = [''BERTScore'']"
  by (simp add: evaluate_bertscore_def bertscore_try_def except_return_empty_def
      split: option.split sum.split prod.split)

lemma names_bertscore_set: "sc \<in> set (evaluate_bertscore self h refs) \<Longrightarrow> metric_name sc = ''BERTScore''"
  using names_bertscore [of self h refs] by auto

lemma names_bleurt:
  "map metric_name (evaluate_bleurt self h refs) = []
   \<or> map metric_name (evaluate_bleurt self h refs) = [''BLEURT'']"
  by (simp add: evaluate_bleurt_def bleurt_try_def except_return_empty_def
      split: option.split sum.split prod.split)

lemma names_bleurt_set: "sc \<in> set (evaluate_bleurt self h refs) \<Longrightarrow> metric_name sc = ''BLEURT''"
  using names_bleurt [of self h refs] by auto

lemma names_comet:
  "map metric_name (evaluate_comet self h refs src) = []
   \<or> map metric_name (evaluate_comet self h refs src) = [''COMET'']"
  by (simp add: evaluate_comet_def comet_try_def except_return_empty_def
      split: option.split sum.split prod.split)

lemma names_comet_set: "sc \<in> set (evaluate_comet self h refs src) \<Longrightarrow> metric_name sc = ''COMET''"
  using names_comet [of self h refs src] by auto

lemma raises_cases:
  assumes "always_raises k self" "refs \<noteq> []"
  shows "case k of
           Bleu \<Rightarrow> evaluate_bleu self h refs = []
         | Chrf \<Rightarrow> evaluate_chrf self h refs = []
         | Meteor \<Rightarrow> evaluate_meteor self h refs = []
         | Rouge \<Rightarrow> evaluate_rouge self h refs = []
         | Bertscore \<Rightarrow> evaluate_bertscore self h refs = []
         | Bleurt \<Rightarrow> evaluate_bleurt self h refs = []
         | Comet \<Rightarrow> evaluate_comet self h refs src = []"
proof (cases k)
  case Bleu
  from assms(1) show ?thesis unfolding Bleu by (simp only: metric_key.case raises_bleu)
next
  case Chrf
  from assms(1) show ?thesis unfolding Chrf by (simp only: metric_key.case raises_chrf)
next
  case Meteor
  from assms(1) show ?thesis unfolding Meteor by (simp only: metric_key.case raises_meteor)
next
  case Rouge
  from assms(1) show ?thesis unfolding Rouge by (simp only: metric_key.case raises_rouge)
next
  case Bertscore
  from assms(1) show ?thesis unfolding Bertscore by (simp only: metric_key.case raises_bertscore)
next
  case Bleurt
  from assms show ?thesis unfolding Bleurt by (simp add: raises_bleurt del: always_raises.simps)
next
  case Comet
  from assms show ?thesis unfolding Comet by (simp add: raises_comet del: always_raises.simps)
qed

lemma single_removed:
  assumes "always_raises k self" "refs \<noteq> []"
  shows "evaluate_single self h refs source = evaluate_single (remove_handler k self) h refs source"
proof -
  have "\<And>src. case k of
           Bleu \<Rightarrow> evaluate_bleu self h refs = []
         | Chrf \<Rightarrow> evaluate_chrf self h refs = []
         | Meteor \<Rightarrow> evaluate_meteor self h refs = []
         | Rouge \<Rightarrow> evaluate_rouge self h refs = []
         | Bertscore \<Rightarrow> evaluate_bertscore self h refs = []
         | Bleurt \<Rightarrow> evaluate_bleurt self h refs = []
         | Comet \<Rightarrow> evaluate_comet self h refs src = []"
    by (rule raises_cases [OF assms])
  then show ?thesis
    by (cases k) (simp_all add: evaluate_single_def removed del: remove_handler.simps split: option.split)
qed

lemma label_absent:
  assumes "always_raises k self" "refs \<noteq> []"
  shows "metric_label k \<notin> metric_name ` set (evaluate_single self h refs source)"
proof -
  have "\<And>src. case k of
           Bleu \<Rightarrow> evaluate_bleu self h refs = []
         | Chrf \<Rightarrow> evaluate_chrf self h refs = []
         | Meteor \<Rightarrow> evaluate_meteor self h refs = []
         | Rouge \<Rightarrow> evaluate_rouge self h refs = []
         | Bertscore \<Rightarrow> evaluate_bertscore self h refs = []
         | Bleurt \<Rightarrow> evaluate_bleurt self h refs = []
         | Comet \<Rightarrow> evaluate_comet self h refs src = []"
    by (rule raises_cases [OF assms])
  then show ?thesis
    by (cases k)
      (auto simp: evaluate_single_def split: option.splits if_splits
        dest!: names_bleu_set names_chrf_set names_meteor_set names_rouge_set
          names_bertscore_set names_bleurt_set names_comet_set)
qed

lemma per_reference_loop_Cons:
  "per_reference_loop self h (r # rest) i source =
     (''ref'' @ str_nat i, evaluate_single self h [r] source)
     # per_reference_loop self h rest (i + 1) source"
  by (simp add: evaluate_single_def)

lemma per_reference_removed:
  assumes "always_raises k self"
  shows "per_reference_loop self h refs i source = per_reference_loop (remove_handler k self) h refs i source"
  using assms
proof (induction refs arbitrary: i)
  case Nil
  show ?case by simp
next
  case (Cons r rest)
  have "evaluate_single self h [r] source = evaluate_single (remove_handler k self) h [r] source"
    using Cons.prems by (intro single_removed) simp_all
  with Cons show ?case by (simp only: per_reference_loop_Cons)
qed

lemma chunk_removed:
  assumes "always_raises k self" "refs \<noteq> []"
  shows "evaluate_chunk self cid src mts refs inc = evaluate_chunk (remove_handler k self) cid src mts refs inc"
proof (induction mts)
  case Nil
  show ?case by simp
next
  case (Cons mt rest)
  obtain m t where mt: "mt = (m, t)" by (cases mt)
  show ?case
    using Cons single_removed [OF assms, of t "Some src"]
      per_reference_removed [OF assms(1), of t refs 1 "Some src"]
    by (simp add: mt evaluate_per_reference_def)
qed

text \<open>
  C4 (partial-failure isolation). When the scorer of one metric raises on every call, and
  there is at least one reference, \<open>evaluate_single\<close> and \<open>evaluate_chunk\<close> still return:
  their results are the results of the evaluator that does not have this metric at all, so
  the other metrics report the scores they report without it, and no score carries the
  failing metric's name.
\<close>

theorem partial_failure_isolation:
  assumes "always_raises k self" and "references \<noteq> []"
  shows "evaluate_single self hypothesis references source
           = evaluate_single (remove_handler k self) hypothesis references source
         \<and> metric_label k \<notin> metric_name ` set (evaluate_single self hypothesis references source)
         \<and> evaluate_chunk self cid source_text model_translations references include_per_reference
           = evaluate_chunk (remove_handler k self) cid source_text model_translations references
               include_per_reference"
  using single_removed [OF assms] label_absent [OF assms] chunk_removed [OF assms]
  by simp

theorem partial_failure_isolation_witness:
  "always_raises Chrf stub_metrics \<and> [ref1, ref2] \<noteq> []
   \<and> evaluate_single stub_metrics hyp1 [ref1, ref2] (Some greek1)
       = evaluate_single (remove_handler Chrf stub_metrics) hyp1 [ref1, ref2] (Some greek1)
   \<and> metric_label Chrf \<notin> metric_name ` set (evaluate_single stub_metrics hyp1 [ref1, ref2] (Some greek1))
   \<and> evaluate_chunk stub_metrics ''c1'' greek1 [(''X'', hyp1)] [ref1, ref2] True
       = evaluate_chunk (remove_handler Chrf stub_metrics) ''c1'' greek1 [(''X'', hyp1)] [ref1, ref2] True"
proof -
  have a: "always_raises Chrf stub_metrics"
    by (simp add: stub_metrics_def no_metrics_def)
  have b: "[ref1, ref2] \<noteq> []"
    by simp
  show ?thesis
    using a b
      partial_failure_isolation [OF a b, of hyp1 "Some greek1" "''c1''" greek1 "[(''X'', hyp1)]" True]
    by blast
qed

subsection \<open>One reference\<close>

lemma str_nat_1: "str_nat (Suc 0) = ''1''"
  by code_simp

text \<open>
  C2 (single-reference equivalence). With exactly one reference, the per-reference path
  makes the calls of the multi-reference path: its only entry, \<open>ref1\<close>, holds the list of
  scores that \<open>evaluate_single\<close> returns, for every metric and with or without a source.
\<close>

theorem single_reference_equivalence:
  "evaluate_per_reference self hypothesis [reference] source
     = [(''ref1'', evaluate_single self hypothesis [reference] source)]"
  by (simp add: evaluate_per_reference_def evaluate_single_def str_nat_1)

theorem single_reference_equivalence_witness:
  "evaluate_per_reference stub_metrics hyp1 [ref2] (Some greek1)
     = [(''ref1'', evaluate_single stub_metrics hyp1 [ref2] (Some greek1))]
   \<and> map (\<lambda>sc. (metric_name sc, score sc)) (evaluate_single stub_metrics hyp1 [ref2] (Some greek1))
     = [(''BLEU-4'', Fin (1 / 2)), (''ROUGE-L'', Fin (1 / 2)), (''BLEURT'', Fin (5 / 2)),
        (''COMET'', Fin (- 3 / 2))]"
proof -
  have "map (\<lambda>sc. (metric_name sc, score sc)) (evaluate_single stub_metrics hyp1 [ref2] (Some greek1))
     = [(''BLEU-4'', Fin (1 / 2)), (''ROUGE-L'', Fin (1 / 2)), (''BLEURT'', Fin (5 / 2)),
        (''COMET'', Fin (- 3 / 2))]"
    by (simp add: evaluate_single_def evaluate_bleu_def bleu_try_def evaluate_chrf_def chrf_try_def
        evaluate_meteor_def evaluate_rouge_def rouge_try_def evaluate_bertscore_def
        evaluate_bleurt_def bleurt_try_def evaluate_comet_def comet_try_def
        except_return_empty_def stub_metrics_def no_metrics_def hyp1_def ref2_def greek1_def
        text_of_def)
  then show ?thesis
    using single_reference_equivalence [of stub_metrics hyp1 ref2 "Some greek1"] by blast
qed

section \<open>The chunk layer\<close>

subsection \<open>Blank translations\<close>

lemma strip_eq_Nil: "strip s = [] \<longleftrightarrow> (\<forall>c\<in>set s. is_space c)"
proof
  assume "strip s = []"
  then have all: "\<forall>c\<in>set (dropWhile is_space s). is_space c"
    by (simp add: strip_def)
  have "dropWhile is_space s = []"
  proof (rule ccontr)
    assume ne: "dropWhile is_space s \<noteq> []"
    then have "\<not> is_space (hd (dropWhile is_space s))"
      by (rule hd_dropWhile)
    moreover have "hd (dropWhile is_space s) \<in> set (dropWhile is_space s)"
      using ne by simp
    ultimately show False using all by blast
  qed
  then show "\<forall>c\<in>set s. is_space c" by simp
next
  assume "\<forall>c\<in>set s. is_space c"
  then have "dropWhile is_space s = []" by simp
  then show "strip s = []" by (simp add: strip_def del: dropWhile_eq_Nil_conv)
qed

lemma blank_iff: "blank t \<longleftrightarrow> (\<forall>c\<in>set t. is_space c)"
  using strip_eq_Nil [of t] by (auto simp: blank_def)

lemma evaluate_chunk_Cons:
  "evaluate_chunk self cid src ((m, t) # rest) refs inc =
     (if blank t then evaluate_chunk self cid src rest refs inc
      else \<lparr>chunk_id = cid, model_name = m,
            scores = evaluate_single self t refs (Some src),
            per_reference_scores =
              (if inc then per_ref_breakdown (evaluate_per_reference self t refs (Some src))
               else [])\<rparr>
           # evaluate_chunk self cid src rest refs inc)"
  by (simp add: blank_def)

lemma evaluate_chunk_models:
  "e \<in> set (evaluate_chunk self cid src mts refs inc)
   \<Longrightarrow> \<exists>t. (model_name e, t) \<in> set mts \<and> \<not> blank t"
proof (induction mts)
  case Nil
  then show ?case by simp
next
  case (Cons mt rest)
  obtain m t where mt: "mt = (m, t)" by (cases mt)
  from Cons show ?case
    unfolding mt evaluate_chunk_Cons by (auto split: if_splits)
qed

lemma evaluate_chunk_without:
  "\<forall>t. (m, t) \<in> set mts \<longrightarrow> blank t
   \<Longrightarrow> evaluate_chunk self cid src mts refs inc
       = evaluate_chunk self cid src (filter (\<lambda>mt. fst mt \<noteq> m) mts) refs inc"
proof (induction mts)
  case Nil
  show ?case by simp
next
  case (Cons mt rest)
  obtain m' t' where mt: "mt = (m', t')" by (cases mt)
  from Cons show ?case
    unfolding mt by (simp add: evaluate_chunk_Cons del: evaluate_chunk.simps)
qed

lemma evaluate_chunk_evaluated:
  "(m, t) \<in> set mts \<Longrightarrow> \<not> blank t
   \<Longrightarrow> \<lparr>chunk_id = cid, model_name = m,
        scores = evaluate_single self t refs (Some src),
        per_reference_scores =
          (if inc then per_ref_breakdown (evaluate_per_reference self t refs (Some src))
           else [])\<rparr>
       \<in> set (evaluate_chunk self cid src mts refs inc)"
proof (induction mts)
  case Nil
  then show ?case by simp
next
  case (Cons mt rest)
  obtain m' t' where mt: "mt = (m', t')" by (cases mt)
  from Cons show ?case
    unfolding mt by (auto simp: evaluate_chunk_Cons simp del: evaluate_chunk.simps)
qed

text \<open>
  C7 (an empty hypothesis is skipped). For a model whose translation is empty or consists
  of whitespace only, \<open>evaluate_chunk\<close> returns no \<open>ChunkEvaluation\<close> (hence no score at all)
  for that model; its result is the result for the dictionary without that model; and
  every model whose translation is not blank gets its evaluation, with the scores of
  \<open>evaluate_single\<close> on its translation.
\<close>

theorem empty_hypothesis_skipped:
  assumes "(model, translation) \<in> set model_translations"
    and "distinct (map fst model_translations)"
    and "\<forall>c\<in>set translation. is_space c"
  shows "model \<notin> model_name ` set (evaluate_chunk self cid source_text model_translations references inc)
    \<and> evaluate_chunk self cid source_text model_translations references inc
      = evaluate_chunk self cid source_text (filter (\<lambda>mt. fst mt \<noteq> model) model_translations)
          references inc
    \<and> (\<forall>(m, t)\<in>set model_translations. \<not> blank t \<longrightarrow>
          \<lparr>chunk_id = cid, model_name = m,
           scores = evaluate_single self t references (Some source_text),
           per_reference_scores =
             (if inc then per_ref_breakdown (evaluate_per_reference self t references (Some source_text))
              else [])\<rparr>
          \<in> set (evaluate_chunk self cid source_text model_translations references inc))"
proof -
  have only: "\<And>t. (model, t) \<in> set model_translations \<Longrightarrow> t = translation"
    using assms(1,2) by (meson eq_key_imp_eq_value)
  have bl: "blank translation"
    using assms(3) by (simp add: blank_iff)
  have 1: "model \<notin> model_name ` set (evaluate_chunk self cid source_text model_translations references inc)"
  proof
    assume "model \<in> model_name ` set (evaluate_chunk self cid source_text model_translations references inc)"
    then obtain e where "e \<in> set (evaluate_chunk self cid source_text model_translations references inc)"
      and "model_name e = model" by auto
    then obtain t where "(model, t) \<in> set model_translations" "\<not> blank t"
      using evaluate_chunk_models by blast
    with only bl show False by blast
  qed
  have 2: "evaluate_chunk self cid source_text model_translations references inc
      = evaluate_chunk self cid source_text (filter (\<lambda>mt. fst mt \<noteq> model) model_translations)
          references inc"
    using only bl by (intro evaluate_chunk_without) blast
  have 3: "\<forall>(m, t)\<in>set model_translations. \<not> blank t \<longrightarrow>
          \<lparr>chunk_id = cid, model_name = m,
           scores = evaluate_single self t references (Some source_text),
           per_reference_scores =
             (if inc then per_ref_breakdown (evaluate_per_reference self t references (Some source_text))
              else [])\<rparr>
          \<in> set (evaluate_chunk self cid source_text model_translations references inc)"
    using evaluate_chunk_evaluated by blast
  from 1 2 3 show ?thesis by blast
qed

theorem empty_hypothesis_skipped_witness:
  "''A'' \<notin> model_name ` set (evaluate_chunk stub_metrics ''c1'' greek1
                                [(''A'', [32, 9, 10]), (''B'', hyp1)] [ref1, ref2] False)
   \<and> evaluate_chunk stub_metrics ''c1'' greek1 [(''A'', [32, 9, 10]), (''B'', hyp1)] [ref1, ref2] False
     = evaluate_chunk stub_metrics ''c1'' greek1 [(''B'', hyp1)] [ref1, ref2] False"
proof -
  have a: "(''A'', [32, 9, 10]) \<in> set [(''A'', [32, 9, 10 :: nat]), (''B'', hyp1)]"
    by simp
  have b: "distinct (map fst [(''A'', [32, 9, 10 :: nat]), (''B'', hyp1)])"
    by simp
  have c: "\<forall>c\<in>set [32, 9, 10 :: nat]. is_space c"
    by (simp add: is_space_def)
  show ?thesis
    using empty_hypothesis_skipped [OF a b c, of stub_metrics "''c1''" greek1 "[ref1, ref2]" False]
    by simp
qed

text \<open>
  C8 (the per-reference breakdown is a frame). The evaluations computed without the
  breakdown are the evaluations computed with it, with the field \<open>per_reference_scores\<close>
  emptied: chunk, model and primary scores are the same.
\<close>

theorem breakdown_frame:
  "evaluate_chunk self cid source_text model_translations references False
     = map (\<lambda>e. e\<lparr>per_reference_scores := []\<rparr>)
         (evaluate_chunk self cid source_text model_translations references True)
   \<and> map scores (evaluate_chunk self cid source_text model_translations references True)
     = map scores (evaluate_chunk self cid source_text model_translations references False)"
  by (induction model_translations) auto

theorem breakdown_frame_witness:
  "map scores (evaluate_chunk stub_metrics ''c1'' greek1 [(''B'', hyp1)] [ref1, ref2] True)
     = map scores (evaluate_chunk stub_metrics ''c1'' greek1 [(''B'', hyp1)] [ref1, ref2] False)"
  using breakdown_frame [of stub_metrics "''c1''" greek1 "[(''B'', hyp1)]" "[ref1, ref2]"]
  by blast

text \<open>
  C9, as the code has it. \<open>evaluate_single\<close> guards the COMET call by \<open>if source:\<close>. Without
  a source (\<open>None\<close> or the empty string) the call returns normally and its result is the
  result of the evaluator that has no COMET handler: the metric is left out and nothing is
  signalled.
\<close>

theorem comet_skipped_without_source:
  assumes "source = None \<or> source = Some []"
  shows "evaluate_single self hypothesis references source
           = evaluate_single (remove_handler Comet self) hypothesis references source
         \<and> ''COMET'' \<notin> metric_name ` set (evaluate_single self hypothesis references source)"
  using assms
  by (auto simp: evaluate_single_def removed simp del: remove_handler.simps
      dest!: names_bleu_set names_chrf_set names_meteor_set names_rouge_set
          names_bertscore_set names_bleurt_set)

theorem comet_skipped_without_source_witness:
  "evaluate_single comet_only hyp1 [ref1] None
     = evaluate_single (remove_handler Comet comet_only) hyp1 [ref1] None"
proof -
  have a: "(None :: str option) = None \<or> None = Some []"
    by simp
  show ?thesis
    using comet_skipped_without_source [OF a, of comet_only hyp1 "[ref1]"] by blast
qed

text \<open>
  C9 as stated fails: with a COMET handler and no source, \<open>evaluate_single\<close> returns the
  empty score list, where the same call with a source returns the COMET score.
\<close>

theorem missing_source_is_silent:
  "comet_handler comet_only \<noteq> None
   \<and> evaluate_single comet_only hyp1 [ref1] None = []
   \<and> map (\<lambda>sc. (metric_name sc, score sc)) (evaluate_single comet_only hyp1 [ref1] (Some greek1))
     = [(''COMET'', Fin (1 / 2))]"
  by (simp add: evaluate_single_def evaluate_bleu_def evaluate_chrf_def evaluate_meteor_def
      evaluate_rouge_def evaluate_bertscore_def evaluate_bleurt_def evaluate_comet_def
      comet_try_def except_return_empty_def comet_only_def no_metrics_def greek1_def)

subsection \<open>Translation records\<close>

lemma map_of_fold_update:
  "map_of (fold (\<lambda>(k, v) d. AList.update k (g v) d) xs acc) k
     = (case map_of (rev xs) k of None \<Rightarrow> map_of acc k | Some v \<Rightarrow> Some (g v))"
proof (induction xs arbitrary: acc)
  case Nil
  show ?case by simp
next
  case (Cons x xs)
  obtain k' v' where x: "x = (k', v')" by (cases x)
  show ?case
    by (simp add: x Cons.IH update_conv' map_add_def split: option.split)
qed

lemma collect_model_translations_member:
  assumes "distinct (map fst records)" "(model, trans_obj) \<in> set records"
  shows "(model, translation_of trans_obj) \<in> set (collect_model_translations records)"
proof -
  have "map_of (rev records) model = Some trans_obj"
    using assms by (intro map_of_is_SomeI) (simp_all add: rev_map [symmetric])
  then have "map_of (collect_model_translations records) model = Some (translation_of trans_obj)"
    unfolding collect_model_translations_def by (simp add: map_of_fold_update)
  then show ?thesis by (rule map_of_SomeD)
qed

lemma evaluate_all_member:
  "chunk \<in> set parsed_chunks \<Longrightarrow> map_of translations (parsed_chunk_id chunk) = Some records
   \<Longrightarrow> e \<in> set (evaluate_chunk self (parsed_chunk_id chunk) (greek_text chunk)
                 (collect_model_translations records) (reference_translations chunk) True)
   \<Longrightarrow> e \<in> set (evaluate_all self parsed_chunks translations)"
  by (induction parsed_chunks) (auto split: option.splits)

text \<open>
  C10 (the string fallback of \<open>evaluate_all\<close>). A record of a chunk's translations that has
  no attribute \<open>translation\<close> and is not a mapping with a key \<open>'translation'\<close> is read as
  \<open>str(record)\<close>; when that text is not blank, the model is evaluated on it: the evaluation
  of \<open>str(record)\<close> against the chunk's references is among the results.
\<close>

theorem str_fallback_scored:
  assumes "chunk \<in> set parsed_chunks"
    and "map_of translations (parsed_chunk_id chunk) = Some records"
    and "distinct (map fst records)"
    and "(model, trans_obj) \<in> set records"
    and "attr_translation trans_obj = None"
    and "dict_items trans_obj = None
         \<or> (\<exists>items. dict_items trans_obj = Some items \<and> map_of items ''translation'' = None)"
    and "\<not> blank (py_str trans_obj)"
  shows "translation_of trans_obj = py_str trans_obj
    \<and> \<lparr>chunk_id = parsed_chunk_id chunk, model_name = model,
        scores = evaluate_single self (py_str trans_obj) (reference_translations chunk)
                   (Some (greek_text chunk)),
        per_reference_scores =
          per_ref_breakdown
            (evaluate_per_reference self (py_str trans_obj) (reference_translations chunk)
               (Some (greek_text chunk)))\<rparr>
      \<in> set (evaluate_all self parsed_chunks translations)"
proof -
  have t: "translation_of trans_obj = py_str trans_obj"
    using assms(5,6) by (auto simp: translation_of_def)
  have "(model, py_str trans_obj) \<in> set (collect_model_translations records)"
    using collect_model_translations_member [OF assms(3,4)] by (simp add: t)
  from evaluate_chunk_evaluated [OF this assms(7), of "parsed_chunk_id chunk" self
      "reference_translations chunk" "greek_text chunk" True]
  show ?thesis
    using t evaluate_all_member [OF assms(1,2)] by simp
qed

theorem str_fallback_scored_witness:
  "\<lparr>chunk_id = ''c1'', model_name = ''X'',
    scores = evaluate_single stub_metrics hyp1 [ref1, ref2] (Some greek1),
    per_reference_scores =
      per_ref_breakdown (evaluate_per_reference stub_metrics hyp1 [ref1, ref2] (Some greek1))\<rparr>
   \<in> set (evaluate_all stub_metrics [chunk1] [(''c1'', [(''X'', plain_record)])])"
proof -
  have a: "chunk1 \<in> set [chunk1]"
    by simp
  have b: "map_of [(''c1'', [(''X'', plain_record)])] (parsed_chunk_id chunk1)
             = Some [(''X'', plain_record)]"
    by (simp add: chunk1_def)
  have c: "distinct (map fst [(''X'', plain_record)])"
    by simp
  have d: "(''X'', plain_record) \<in> set [(''X'', plain_record)]"
    by simp
  have e: "attr_translation plain_record = None"
    by (simp add: plain_record_def)
  have f: "dict_items plain_record = None
           \<or> (\<exists>items. dict_items plain_record = Some items \<and> map_of items ''translation'' = None)"
    by (simp add: plain_record_def)
  have "\<not> is_space 84" "84 \<in> set hyp1"
    by (simp_all add: is_space_def hyp1_def text_of_def)
  then have g: "\<not> blank (py_str plain_record)"
    by (auto simp: blank_iff plain_record_def)
  show ?thesis
    using str_fallback_scored [OF a b c d e f g, of stub_metrics]
    by (simp add: chunk1_def plain_record_def)
qed

subsection \<open>The maximum over the references\<close>

lemma max_loop_Fin: "fst (max_loop vs i (Fin y) j) = Fin (fold max vs y)"
  by (induction vs arbitrary: i y j) (simp_all add: max_def)

lemma max_loop_NegInf:
  assumes "vs \<noteq> []"
  shows "fst (max_loop vs i NegInf j) = Fin (Max (set vs))"
proof (cases vs)
  case Nil
  with assms show ?thesis by simp
next
  case (Cons v rest)
  have "fold max rest v = Max (set (v # rest))"
    by (simp only: Max.set_eq_fold)
  then show ?thesis
    by (simp add: Cons max_loop_Fin)
qed

lemma max_loop_idx:
  "max_loop vs i b j = (b', j')
   \<Longrightarrow> (b' = b \<and> j' = j) \<or> (i < j' \<and> j' \<le> i + length vs \<and> b' = Fin (vs ! (j' - i - 1)))"
proof (induction vs arbitrary: i b j)
  case Nil
  then show ?case by simp
next
  case (Cons v rest)
  show ?case
  proof (cases "float_gt v b")
    case True
    with Cons.prems have "max_loop rest (i + 1) (Fin v) (i + 1) = (b', j')" by simp
    from Cons.IH [OF this] show ?thesis
    proof
      assume "b' = Fin v \<and> j' = i + 1"
      then show ?thesis by simp
    next
      assume a: "i + 1 < j' \<and> j' \<le> i + 1 + length rest \<and> b' = Fin (rest ! (j' - (i + 1) - 1))"
      then have "j' - i - 1 = Suc (j' - (i + 1) - 1)" by arith
      with a show ?thesis by simp
    qed
  next
    case False
    with Cons.prems have "max_loop rest (i + 1) b j = (b', j')" by simp
    from Cons.IH [OF this] show ?thesis
    proof
      assume "b' = b \<and> j' = j"
      then show ?thesis by simp
    next
      assume a: "i + 1 < j' \<and> j' \<le> i + 1 + length rest \<and> b' = Fin (rest ! (j' - (i + 1) - 1))"
      then have "j' - i - 1 = Suc (j' - (i + 1) - 1)" by arith
      with a show ?thesis by simp
    qed
  qed
qed

lemma max_loop_result:
  assumes "vs \<noteq> []"
  obtains j where "max_loop vs 0 NegInf 0 = (Fin (Max (set vs)), j)"
    and "1 \<le> j" and "j \<le> length vs" and "vs ! (j - 1) = Max (set vs)"
proof -
  obtain b j where r: "max_loop vs 0 NegInf 0 = (b, j)" by (cases "max_loop vs 0 NegInf 0")
  have b: "b = Fin (Max (set vs))"
    using max_loop_NegInf [OF assms, of 0 0] r by simp
  from max_loop_idx [OF r] b have "0 < j \<and> j \<le> length vs \<and> Fin (Max (set vs)) = Fin (vs ! (j - 0 - 1))"
    by auto
  with r b that show thesis by auto
qed

lemma bleurt_loop_max:
  "\<forall>r\<in>set refs. scorer r h = Inr (g r)
   \<Longrightarrow> bleurt_loop scorer h refs i b j = Inr (max_loop (map g refs) i b j)"
  by (induction refs arbitrary: i b j) simp_all

lemma comet_loop_max:
  "\<forall>r\<in>set refs. model src h r gpus nw = Inr (g r)
   \<Longrightarrow> comet_loop model gpus nw src h refs i b j = Inr (max_loop (map g refs) i b j)"
  by (induction refs arbitrary: i b j) simp_all

lemma rouge_loop_member:
  "rouge_loop scorer h refs i best j = Inr (Some b, j')
   \<Longrightarrow> best = Some b \<or> (\<exists>r\<in>set refs. scorer r h = Inr b)"
proof (induction refs arbitrary: i best j)
  case Nil
  then show ?case by simp
next
  case (Cons r rest)
  then show ?case
    by (cases "scorer r h") (auto split: if_splits)
qed


lemma bleurt_score_max:
  assumes "bleurt_handler self = Some f" "refs \<noteq> []" "\<forall>r\<in>set refs. f r h = Inr (g r)"
  shows "map score (evaluate_bleurt self h refs) = [Fin (Max (g ` set refs))]"
proof -
  have "fst (max_loop (map g refs) 0 NegInf 0) = Fin (Max (set (map g refs)))"
    using assms(2) by (intro max_loop_NegInf) simp
  then show ?thesis
    by (auto simp: evaluate_bleurt_def bleurt_try_def except_return_empty_def assms(1)
        bleurt_loop_max [where scorer = f and h = h and g = g and refs = refs, OF assms(3)] split: prod.split)
qed

lemma comet_score_max:
  assumes "comet_handler self = Some f" "refs \<noteq> []" "torch_mps_is_available self = Inr mps"
    "\<forall>r\<in>set refs. f src h r (if use_gpu self then 1 else 0) (if mps then 1 else 0) = Inr (g r)"
  shows "map score (evaluate_comet self h refs src) = [Fin (Max (g ` set refs))]"
proof -
  have "fst (max_loop (map g refs) 0 NegInf 0) = Fin (Max (set (map g refs)))"
    using assms(2) by (intro max_loop_NegInf) simp
  then show ?thesis
    by (auto simp: evaluate_comet_def comet_try_def except_return_empty_def assms(1,3)
        comet_loop_max [where model = f and h = h and g = g and refs = refs and src = src, OF assms(4)] split: prod.split)
qed

lemma bleu_score_value:
  assumes "sc \<in> set (evaluate_bleu self h refs)"
  shows "\<exists>f res. bleu_handler self = Some f \<and> f h refs = Inr res
           \<and> score sc = Fin (sacre_score res / 100)"
proof (cases "bleu_handler self")
  case None
  with assms show ?thesis by (simp add: evaluate_bleu_def)
next
  case (Some f)
  show ?thesis
  proof (cases "f h refs")
    case (Inl e)
    with assms Some show ?thesis
      by (simp add: evaluate_bleu_def bleu_try_def except_return_empty_def)
  next
    case (Inr res)
    with assms Some show ?thesis
      by (simp add: evaluate_bleu_def bleu_try_def except_return_empty_def)
  qed
qed

lemma chrf_score_value:
  assumes "sc \<in> set (evaluate_chrf self h refs)"
  shows "\<exists>f raw. chrf_handler self = Some f \<and> f h refs = Inr raw \<and> score sc = Fin (raw / 100)"
proof (cases "chrf_handler self")
  case None
  with assms show ?thesis by (simp add: evaluate_chrf_def)
next
  case (Some f)
  show ?thesis
  proof (cases "f h refs")
    case (Inl e)
    with assms Some show ?thesis
      by (simp add: evaluate_chrf_def chrf_try_def except_return_empty_def)
  next
    case (Inr raw)
    with assms Some show ?thesis
      by (simp add: evaluate_chrf_def chrf_try_def except_return_empty_def)
  qed
qed

lemma meteor_score_value:
  assumes "sc \<in> set (evaluate_meteor self h refs)"
  shows "\<exists>f hyp_tokens ref_tokens s.
           meteor_handler self = Some f
           \<and> word_tokenize self (str_lower self h) = Inr hyp_tokens
           \<and> tokenize_all (str_lower self) (word_tokenize self) refs = Inr ref_tokens
           \<and> f ref_tokens hyp_tokens = Inr s \<and> score sc = Fin s"
proof (cases "meteor_handler self")
  case None
  with assms show ?thesis by (simp add: evaluate_meteor_def)
next
  case (Some f)
  show ?thesis
  proof (cases "meteor_try self f h refs")
    case (Inl e)
    with assms Some show ?thesis
      by (simp add: evaluate_meteor_def except_return_empty_def)
  next
    case (Inr scs)
    then obtain ref_tokens hyp_tokens s where
      "word_tokenize self (str_lower self h) = Inr hyp_tokens"
      "tokenize_all (str_lower self) (word_tokenize self) refs = Inr ref_tokens"
      "f ref_tokens hyp_tokens = Inr s"
      and scs: "scs = [\<lparr>metric_name = ''METEOR'', score = Fin s,
                        details = [(''num_references'', DInt (length refs))]\<rparr>]"
      by (auto simp: meteor_try_def split: sum.splits)
    with assms Some Inr show ?thesis
      by (simp add: evaluate_meteor_def except_return_empty_def)
  qed
qed

lemma rouge_score_value:
  assumes "sc \<in> set (evaluate_rouge self h refs)"
  shows "\<exists>f r res. rouge_handler self = Some f \<and> r \<in> set refs \<and> f r h = Inr res
           \<and> score sc = Fin (fmeasure res)"
proof (cases "rouge_handler self")
  case None
  with assms show ?thesis by (simp add: evaluate_rouge_def)
next
  case (Some f)
  show ?thesis
  proof (cases "rouge_loop f h refs 0 None 0")
    case (Inl e)
    with assms Some show ?thesis
      by (simp add: evaluate_rouge_def rouge_try_def except_return_empty_def)
  next
    case (Inr res)
    obtain bo j where res: "res = (bo, j)" by (cases res)
    show ?thesis
    proof (cases bo)
      case None
      with assms Some Inr res show ?thesis
        by (simp add: evaluate_rouge_def rouge_try_def except_return_empty_def)
    next
      case b: (Some b)
      from rouge_loop_member [of f h refs 0 None 0 b j] Inr res b
      obtain r where "r \<in> set refs" "f r h = Inr b" by auto
      moreover have "score sc = Fin (fmeasure b)"
        using assms Some Inr res b
        by (simp add: evaluate_rouge_def rouge_try_def except_return_empty_def)
      ultimately show ?thesis using Some by blast
    qed
  qed
qed

lemma bertscore_loop_member:
  "bertscore_loop bs cuda h refs i bf br j = Inr (Some res, j')
   \<Longrightarrow> br = Some res \<or> (\<exists>r\<in>set refs. bs h r cuda = Inr res)"
proof (induction refs arbitrary: i bf br j)
  case Nil
  then show ?case by simp
next
  case (Cons r rest)
  then show ?case
    by (cases "bs h r cuda") (auto split: if_splits prod.splits)
qed

lemma bertscore_score_value:
  assumes "sc \<in> set (evaluate_bertscore self h refs)"
  shows "\<exists>f r p rc f1. bertscore_handler self = Some f \<and> r \<in> set refs
           \<and> f h r (use_gpu self) = Inr (p, rc, f1) \<and> score sc = Fin f1"
proof (cases "bertscore_handler self")
  case None
  with assms show ?thesis by (simp add: evaluate_bertscore_def)
next
  case (Some f)
  show ?thesis
  proof (cases "bertscore_loop f (use_gpu self) h refs 0 (- 1) None 0")
    case (Inl e)
    with assms Some show ?thesis
      by (simp add: evaluate_bertscore_def bertscore_try_def except_return_empty_def)
  next
    case (Inr res)
    obtain bo j where res: "res = (bo, j)" by (cases res)
    show ?thesis
    proof (cases bo)
      case None
      with assms Some Inr res show ?thesis
        by (simp add: evaluate_bertscore_def bertscore_try_def except_return_empty_def)
    next
      case b: (Some b)
      obtain p rc f1 where t: "b = (p, rc, f1)" by (cases b)
      from bertscore_loop_member [of f "use_gpu self" h refs 0 "- 1" None 0 b j] Inr res b
      obtain r where "r \<in> set refs" "f h r (use_gpu self) = Inr b" by auto
      moreover have "score sc = Fin f1"
        using assms Some Inr res b t
        by (simp add: evaluate_bertscore_def bertscore_try_def except_return_empty_def)
      ultimately show ?thesis using Some t by blast
    qed
  qed
qed

text \<open>
  C6 (score boundedness), as the code has it. No score is clipped anywhere. Every BLEU-4
  and every chrF++ score that the evaluator produces is the value that SacreBLEU returned,
  divided by 100; every METEOR score is the value that NLTK returned; every ROUGE-L score
  is the F-measure and every BERTScore score the F1 that the scorer returned for one of
  the references. The BLEURT and the COMET score are the greatest of the values that the
  scorer returned for the references, whatever these values are. So a score of a
  normalized family is above 1 whenever the value of the library is above its nominal
  range.
\<close>

theorem scores_unclipped:
  "(\<forall>sc\<in>set (evaluate_bleu self h refs).
      \<exists>f res. bleu_handler self = Some f \<and> f h refs = Inr res
        \<and> score sc = Fin (sacre_score res / 100))
   \<and> (\<forall>sc\<in>set (evaluate_chrf self h refs).
        \<exists>f raw. chrf_handler self = Some f \<and> f h refs = Inr raw \<and> score sc = Fin (raw / 100))
   \<and> (\<forall>sc\<in>set (evaluate_meteor self h refs).
        \<exists>f hyp_tokens ref_tokens s.
          meteor_handler self = Some f
          \<and> word_tokenize self (str_lower self h) = Inr hyp_tokens
          \<and> tokenize_all (str_lower self) (word_tokenize self) refs = Inr ref_tokens
          \<and> f ref_tokens hyp_tokens = Inr s \<and> score sc = Fin s)
   \<and> (\<forall>sc\<in>set (evaluate_rouge self h refs).
        \<exists>f r res. rouge_handler self = Some f \<and> r \<in> set refs \<and> f r h = Inr res
          \<and> score sc = Fin (fmeasure res))
   \<and> (\<forall>sc\<in>set (evaluate_bertscore self h refs).
        \<exists>f r p rc f1. bertscore_handler self = Some f \<and> r \<in> set refs
          \<and> f h r (use_gpu self) = Inr (p, rc, f1) \<and> score sc = Fin f1)
   \<and> (\<forall>f g. bleurt_handler self = Some f \<and> refs \<noteq> [] \<and> (\<forall>r\<in>set refs. f r h = Inr (g r))
          \<longrightarrow> map score (evaluate_bleurt self h refs) = [Fin (Max (g ` set refs))])
   \<and> (\<forall>f g mps. comet_handler self = Some f \<and> refs \<noteq> [] \<and> torch_mps_is_available self = Inr mps
          \<and> (\<forall>r\<in>set refs. f src h r (if use_gpu self then 1 else 0) (if mps then 1 else 0) = Inr (g r))
          \<longrightarrow> map score (evaluate_comet self h refs src) = [Fin (Max (g ` set refs))])"
proof (intro conjI ballI allI impI)
  fix sc assume "sc \<in> set (evaluate_bleu self h refs)"
  then show "\<exists>f res. bleu_handler self = Some f \<and> f h refs = Inr res
        \<and> score sc = Fin (sacre_score res / 100)"
    by (rule bleu_score_value)
next
  fix sc assume "sc \<in> set (evaluate_chrf self h refs)"
  then show "\<exists>f raw. chrf_handler self = Some f \<and> f h refs = Inr raw \<and> score sc = Fin (raw / 100)"
    by (rule chrf_score_value)
next
  fix sc assume "sc \<in> set (evaluate_meteor self h refs)"
  then show "\<exists>f hyp_tokens ref_tokens s.
          meteor_handler self = Some f
          \<and> word_tokenize self (str_lower self h) = Inr hyp_tokens
          \<and> tokenize_all (str_lower self) (word_tokenize self) refs = Inr ref_tokens
          \<and> f ref_tokens hyp_tokens = Inr s \<and> score sc = Fin s"
    by (rule meteor_score_value)
next
  fix sc assume "sc \<in> set (evaluate_rouge self h refs)"
  then show "\<exists>f r res. rouge_handler self = Some f \<and> r \<in> set refs \<and> f r h = Inr res
          \<and> score sc = Fin (fmeasure res)"
    by (rule rouge_score_value)
next
  fix sc assume "sc \<in> set (evaluate_bertscore self h refs)"
  then show "\<exists>f r p rc f1. bertscore_handler self = Some f \<and> r \<in> set refs
          \<and> f h r (use_gpu self) = Inr (p, rc, f1) \<and> score sc = Fin f1"
    by (rule bertscore_score_value)
next
  fix f g
  assume "bleurt_handler self = Some f \<and> refs \<noteq> [] \<and> (\<forall>r\<in>set refs. f r h = Inr (g r))"
  then show "map score (evaluate_bleurt self h refs) = [Fin (Max (g ` set refs))]"
    using bleurt_score_max by blast
next
  fix f g mps
  assume "comet_handler self = Some f \<and> refs \<noteq> [] \<and> torch_mps_is_available self = Inr mps
          \<and> (\<forall>r\<in>set refs. f src h r (if use_gpu self then 1 else 0) (if mps then 1 else 0) = Inr (g r))"
  then show "map score (evaluate_comet self h refs src) = [Fin (Max (g ` set refs))]"
    using comet_score_max by blast
qed

theorem scores_unclipped_witness:
  "map score (evaluate_bleu stub_metrics hyp1 [ref1, ref2]) = [Fin (50 / 100)]
   \<and> map score (evaluate_bleu bleu_exact_match hyp1 [ref1])
       = [Fin (10000000000000004 / 100000000000000 / 100)]
   \<and> map score (evaluate_bleurt stub_metrics hyp1 [ref1, ref2]) = [Fin (5 / 2)]
   \<and> map score (evaluate_comet stub_metrics hyp1 [ref1, ref2] greek1) = [Fin (- 3 / 2)]"
proof -
  note t = scores_unclipped [of stub_metrics hyp1 "[ref1, ref2]" greek1]
  note u = scores_unclipped [of bleu_exact_match hyp1 "[ref1]" greek1]
  have bl: "bleurt_handler stub_metrics = Some (\<lambda>r h. Inr (5 / 2))"
    and co: "comet_handler stub_metrics = Some (\<lambda>s h r g n. Inr (- 3 / 2))"
    and mps: "torch_mps_is_available stub_metrics = Inr False"
    and b1: "bleu_handler stub_metrics = Some (\<lambda>h refs. Inr \<lparr>sacre_score = 50, bp = 1\<rparr>)"
    by (simp_all add: stub_metrics_def no_metrics_def)
  have b2: "bleu_handler bleu_exact_match
              = Some (\<lambda>h refs. Inr \<lparr>sacre_score = 10000000000000004 / 100000000000000, bp = 1\<rparr>)"
    by (simp add: bleu_exact_match_def no_metrics_def)
  obtain sc where sc: "evaluate_bleu stub_metrics hyp1 [ref1, ref2] = [sc]"
    by (simp add: evaluate_bleu_def bleu_try_def except_return_empty_def b1)
  obtain sc' where sc': "evaluate_bleu bleu_exact_match hyp1 [ref1] = [sc']"
    by (simp add: evaluate_bleu_def bleu_try_def except_return_empty_def b2)
  have 1: "map score (evaluate_bleurt stub_metrics hyp1 [ref1, ref2])
             = [Fin (Max ((\<lambda>r. 5 / 2) ` set [ref1, ref2]))]"
    using t [THEN conjunct2, THEN conjunct2, THEN conjunct2, THEN conjunct2, THEN conjunct2,
        THEN conjunct1, THEN spec, THEN spec, of "\<lambda>r h. Inr (5 / 2)" "\<lambda>r. 5 / 2"] bl
    by simp
  have 2: "map score (evaluate_comet stub_metrics hyp1 [ref1, ref2] greek1)
             = [Fin (Max ((\<lambda>r. - 3 / 2) ` set [ref1, ref2]))]"
    using t [THEN conjunct2, THEN conjunct2, THEN conjunct2, THEN conjunct2, THEN conjunct2,
        THEN conjunct2, THEN spec, THEN spec, THEN spec,
        of "\<lambda>s h r g n. Inr (- 3 / 2)" False "\<lambda>r. - 3 / 2"] co mps
    by (simp add: stub_metrics_def no_metrics_def)
  have 3: "score sc = Fin (50 / 100)"
    using t [THEN conjunct1, THEN bspec, of sc] sc b1 by auto
  have 4: "score sc' = Fin (10000000000000004 / 100000000000000 / 100)"
    using u [THEN conjunct1, THEN bspec, of sc'] sc' b2 by auto
  from 1 2 3 4 sc sc' show ?thesis by simp
qed

text \<open>
  C6, at an input where the claim fails: SacreBLEU returns 100.00000000000004 for a
  hypothesis equal to its reference, and the BLEU-4 score of the evaluator is
  1.0000000000000004, outside the interval from 0 to 1.
\<close>

theorem bleu_above_one:
  "bleu_handler bleu_exact_match
     = Some (\<lambda>h refs. Inr \<lparr>sacre_score = 10000000000000004 / 100000000000000, bp = 1\<rparr>)
   \<and> map score (evaluate_bleu bleu_exact_match hyp1 [ref1])
       = [Fin (10000000000000004 / 10000000000000000)]
   \<and> \<not> in_unit (Fin (10000000000000004 / 10000000000000000))"
  by (simp add: evaluate_bleu_def bleu_try_def except_return_empty_def bleu_exact_match_def
      no_metrics_def)

subsection \<open>The winning reference\<close>

text \<open>
  What the four loops return when every call of the scorer succeeds on a non-empty list of
  references. ROUGE-L, BLEURT and COMET report the greatest per-reference score and, as
  \<open>best_reference\<close>, the 1-based index of a reference that has it. BERTScore reports the
  greatest F1 only when some F1 is greater than -1; otherwise it reports nothing.
\<close>

lemma max_loop_fold: "vs \<noteq> [] \<Longrightarrow> fst (max_loop vs i (Fin y) j) = Fin (max y (Max (set vs)))"
proof -
  assume "vs \<noteq> []"
  then have "Max (insert y (set vs)) = max y (Max (set vs))"
    by simp
  moreover have "fold max vs y = Max (set (y # vs))"
    by (simp only: Max.set_eq_fold)
  ultimately show ?thesis
    by (simp add: max_loop_Fin)
qed

lemma rouge_loop_max:
  assumes "\<forall>r\<in>set refs. scorer r h = Inr (g r)"
  shows "\<exists>bo. rouge_loop scorer h refs i best j
               = Inr (bo, snd (max_loop (map (\<lambda>r. fmeasure (g r)) refs) i
                                 (case best of None \<Rightarrow> NegInf | Some b \<Rightarrow> Fin (fmeasure b)) j))
              \<and> (case bo of None \<Rightarrow> NegInf | Some b \<Rightarrow> Fin (fmeasure b))
                = fst (max_loop (map (\<lambda>r. fmeasure (g r)) refs) i
                         (case best of None \<Rightarrow> NegInf | Some b \<Rightarrow> Fin (fmeasure b)) j)"
  using assms
proof (induction refs arbitrary: i best j)
  case Nil
  show ?case by simp
next
  case (Cons r rest)
  have r: "scorer r h = Inr (g r)" and rest: "\<forall>r\<in>set rest. scorer r h = Inr (g r)"
    using Cons.prems by simp_all
  have c: "(case best of None \<Rightarrow> True | Some b \<Rightarrow> fmeasure (g r) > fmeasure b)
           \<longleftrightarrow> float_gt (fmeasure (g r)) (case best of None \<Rightarrow> NegInf | Some b \<Rightarrow> Fin (fmeasure b))"
    by (cases best) simp_all
  show ?case
  proof (cases "float_gt (fmeasure (g r)) (case best of None \<Rightarrow> NegInf | Some b \<Rightarrow> Fin (fmeasure b))")
    case True
    with c have "rouge_loop scorer h (r # rest) i best j
                 = rouge_loop scorer h rest (i + 1) (Some (g r)) (i + 1)"
      by (simp add: r)
    with Cons.IH [OF rest, of "i + 1" "Some (g r)" "i + 1"] True show ?thesis
      by simp
  next
    case False
    with c have "rouge_loop scorer h (r # rest) i best j
                 = rouge_loop scorer h rest (i + 1) best j"
      by (simp add: r)
    with Cons.IH [OF rest, of "i + 1" best j] False show ?thesis
      by simp
  qed
qed

lemma rouge_score_max:
  assumes "rouge_handler self = Some f" "refs \<noteq> []" "\<forall>r\<in>set refs. f r h = Inr (g r)"
  shows "\<exists>sc j. evaluate_rouge self h refs = [sc]
           \<and> score sc = Fin (Max ((\<lambda>r. fmeasure (g r)) ` set refs))
           \<and> map_of (details sc) ''best_reference'' = Some (DInt j)
           \<and> 1 \<le> j \<and> j \<le> length refs
           \<and> fmeasure (g (refs ! (j - 1))) = Max ((\<lambda>r. fmeasure (g r)) ` set refs)"
proof -
  let ?vs = "map (\<lambda>r. fmeasure (g r)) refs"
  have ne: "?vs \<noteq> []" using assms(2) by simp
  from max_loop_result [OF ne] obtain j where j: "max_loop ?vs 0 NegInf 0 = (Fin (Max (set ?vs)), j)"
    "1 \<le> j" "j \<le> length ?vs" "?vs ! (j - 1) = Max (set ?vs)"
    by blast
  from rouge_loop_max [where scorer = f and h = h and g = g and refs = refs and i = 0
      and best = None and j = 0, OF assms(3)] j(1)
  obtain bo where bo: "rouge_loop f h refs 0 None 0 = Inr (bo, j)"
    "(case bo of None \<Rightarrow> NegInf | Some b \<Rightarrow> Fin (fmeasure b)) = Fin (Max (set ?vs))"
    by auto
  then obtain b where b: "bo = Some b" "fmeasure b = Max (set ?vs)"
    by (cases bo) simp_all
  have "?vs ! (j - 1) = fmeasure (g (refs ! (j - 1)))"
    using j(2,3) by (intro nth_map) simp
  with j b bo(1) show ?thesis
    by (simp add: evaluate_rouge_def assms(1) rouge_try_def except_return_empty_def)
qed

lemma bleurt_best_reference:
  assumes "bleurt_handler self = Some f" "refs \<noteq> []" "\<forall>r\<in>set refs. f r h = Inr (g r)"
  shows "\<exists>sc j. evaluate_bleurt self h refs = [sc]
           \<and> score sc = Fin (Max (g ` set refs))
           \<and> map_of (details sc) ''best_reference'' = Some (DInt j)
           \<and> 1 \<le> j \<and> j \<le> length refs \<and> g (refs ! (j - 1)) = Max (g ` set refs)"
proof -
  let ?vs = "map g refs"
  have ne: "?vs \<noteq> []" using assms(2) by simp
  from max_loop_result [OF ne] obtain j where j: "max_loop ?vs 0 NegInf 0 = (Fin (Max (set ?vs)), j)"
    "1 \<le> j" "j \<le> length ?vs" "?vs ! (j - 1) = Max (set ?vs)"
    by blast
  have "?vs ! (j - 1) = g (refs ! (j - 1))"
    using j(2,3) by (intro nth_map) simp
  with j show ?thesis
    by (simp add: evaluate_bleurt_def assms(1) bleurt_try_def except_return_empty_def
        bleurt_loop_max [where scorer = f and h = h and g = g and refs = refs, OF assms(3)])
qed

lemma comet_best_reference:
  assumes "comet_handler self = Some f" "refs \<noteq> []" "torch_mps_is_available self = Inr mps"
    "\<forall>r\<in>set refs. f src h r (if use_gpu self then 1 else 0) (if mps then 1 else 0) = Inr (g r)"
  shows "\<exists>sc j. evaluate_comet self h refs src = [sc]
           \<and> score sc = Fin (Max (g ` set refs))
           \<and> map_of (details sc) ''best_reference'' = Some (DInt j)
           \<and> 1 \<le> j \<and> j \<le> length refs \<and> g (refs ! (j - 1)) = Max (g ` set refs)"
proof -
  let ?vs = "map g refs"
  have ne: "?vs \<noteq> []" using assms(2) by simp
  from max_loop_result [OF ne] obtain j where j: "max_loop ?vs 0 NegInf 0 = (Fin (Max (set ?vs)), j)"
    "1 \<le> j" "j \<le> length ?vs" "?vs ! (j - 1) = Max (set ?vs)"
    by blast
  have "?vs ! (j - 1) = g (refs ! (j - 1))"
    using j(2,3) by (intro nth_map) simp
  with j show ?thesis
    by (simp add: evaluate_comet_def assms(1,3) comet_try_def except_return_empty_def
        comet_loop_max [where model = f and h = h and g = g and refs = refs and src = src,
          OF assms(4)])
qed

lemma bertscore_loop_max:
  assumes "\<forall>r\<in>set refs. bs h r cuda = Inr (gp r, gr r, gf r)"
  shows "\<exists>res. bertscore_loop bs cuda h refs i bf br j
                = Inr (res, snd (max_loop (map gf refs) i (Fin bf) j))
              \<and> (fst (max_loop (map gf refs) i (Fin bf) j) = Fin bf \<and> res = br
                 \<or> (\<exists>p r f. res = Some (p, r, f) \<and> fst (max_loop (map gf refs) i (Fin bf) j) = Fin f
                       \<and> f > bf))"
  using assms
proof (induction refs arbitrary: i bf br j)
  case Nil
  show ?case by simp
next
  case (Cons r rest)
  have r: "bs h r cuda = Inr (gp r, gr r, gf r)"
    and rest: "\<forall>r\<in>set rest. bs h r cuda = Inr (gp r, gr r, gf r)"
    using Cons.prems by simp_all
  show ?case
  proof (cases "gf r > bf")
    case True
    from Cons.IH [OF rest, of "i + 1" "gf r" "Some (gp r, gr r, gf r)" "i + 1"]
    obtain res where res: "bertscore_loop bs cuda h rest (i + 1) (gf r) (Some (gp r, gr r, gf r)) (i + 1)
                = Inr (res, snd (max_loop (map gf rest) (i + 1) (Fin (gf r)) (i + 1)))"
      "fst (max_loop (map gf rest) (i + 1) (Fin (gf r)) (i + 1)) = Fin (gf r)
         \<and> res = Some (gp r, gr r, gf r)
       \<or> (\<exists>p r' f. res = Some (p, r', f)
             \<and> fst (max_loop (map gf rest) (i + 1) (Fin (gf r)) (i + 1)) = Fin f \<and> f > gf r)"
      by blast
    from res(2) True
    have "\<exists>p r' f. res = Some (p, r', f)
             \<and> fst (max_loop (map gf rest) (i + 1) (Fin (gf r)) (i + 1)) = Fin f \<and> f > bf"
      by force
    with res(1) True show ?thesis
      by (simp add: r)
  next
    case False
    with Cons.IH [OF rest, of "i + 1" bf br j] show ?thesis
      by (simp add: r)
  qed
qed

lemma bertscore_score_max:
  assumes "bertscore_handler self = Some bs" "refs \<noteq> []"
    "\<forall>r\<in>set refs. bs h r (use_gpu self) = Inr (gp r, gr r, gf r)"
  shows "map score (evaluate_bertscore self h refs)
         = (if Max (gf ` set refs) > - 1 then [Fin (Max (gf ` set refs))] else [])"
proof -
  let ?vs = "map gf refs"
  have ne: "?vs \<noteq> []" using assms(2) by simp
  have m: "fst (max_loop ?vs 0 (Fin (- 1)) 0) = Fin (max (- 1) (Max (set ?vs)))"
    using ne by (rule max_loop_fold)
  from bertscore_loop_max [where bs = bs and h = h and cuda = "use_gpu self" and gp = gp
      and gr = gr and gf = gf and refs = refs and i = 0 and bf = "- 1" and br = None and j = 0,
      OF assms(3)]
  obtain res where res: "bertscore_loop bs (use_gpu self) h refs 0 (- 1) None 0
                = Inr (res, snd (max_loop ?vs 0 (Fin (- 1)) 0))"
      "fst (max_loop ?vs 0 (Fin (- 1)) 0) = Fin (- 1) \<and> res = None
       \<or> (\<exists>p r f. res = Some (p, r, f) \<and> fst (max_loop ?vs 0 (Fin (- 1)) 0) = Fin f \<and> f > - 1)"
    by blast
  show ?thesis
  proof (cases "Max (gf ` set refs) > - 1")
    case True
    then have "max (- 1) (Max (set ?vs)) = Max (gf ` set refs)" "Max (gf ` set refs) \<noteq> - 1"
      by simp_all
    with res(2) m obtain p r where "res = Some (p, r, Max (gf ` set refs))"
      by auto
    with res(1) True show ?thesis
      by (simp add: evaluate_bertscore_def assms(1) bertscore_try_def except_return_empty_def)
  next
    case False
    then have "max (- 1) (Max (set ?vs)) = - 1"
      by simp
    with res(2) m have "res = None"
      by auto
    with res(1) False show ?thesis
      by (simp add: evaluate_bertscore_def assms(1) bertscore_try_def except_return_empty_def)
  qed
qed

text \<open>
  C1, at an input where it fails. BERTScore's loop starts from \<open>best_f1 = -1\<close>, where the
  loops of BLEURT and COMET start from \<open>-float('inf')\<close> and the loop of ROUGE-L from
  \<open>None\<close>. When no reference has an F1 above -1 (precision and recall are cosine
  similarities, between -1 and 1), \<open>best_result\<close> is still \<open>None\<close> after the loop,
  \<open>best_result[2]\<close> raises inside the \<open>try\<close>, and the metric is dropped instead of reporting
  the maximum -1 and the winning reference 1.
\<close>

theorem bertscore_sentinel:
  "bertscore_handler bert_low = Some (\<lambda>h r cuda. Inr (- 1, - 1, - 1))
   \<and> evaluate_bertscore bert_low hyp1 [ref1, ref2] = []"
  by (simp add: evaluate_bertscore_def bertscore_try_def except_return_empty_def bert_low_def
      no_metrics_def)

section \<open>The summary\<close>

subsection \<open>Dictionaries of lists\<close>

lemma map_of_dd_modify:
  "map_of (dd_modify a f d) a' = (if a' = a then Some (f (entry d a)) else map_of d a')"
  by (simp add: dd_modify_def entry_def update_conv')

lemma map_of_dd_append:
  "map_of (dd_append k v d) k'
     = (if k' = k then Some ((case map_of d k of None \<Rightarrow> [] | Some l \<Rightarrow> l) @ [v]) else map_of d k')"
  by (simp add: dd_append_def update_conv')

lemma keys_dd_modify: "fst ` set (dd_modify a f d) = insert a (fst ` set d)"
  by (simp add: dd_modify_def dom_update)

lemma distinct_dd_modify: "distinct (map fst d) \<Longrightarrow> distinct (map fst (dd_modify a f d))"
  by (simp add: dd_modify_def distinct_update)

lemma distinct_dd_append: "distinct (map fst d) \<Longrightarrow> distinct (map fst (dd_append k v d))"
  by (simp add: dd_append_def distinct_update)

lemma entry_dd_modify:
  "entry (dd_modify a f d) a' = (if a' = a then f (entry d a) else entry d a')"
  by (simp add: entry_def map_of_dd_modify)

lemma mset_concat_dd_append:
  "mset (concat (map snd (dd_append k v d))) = add_mset v (mset (concat (map snd d)))"
proof (induction d)
  case Nil
  show ?case by (simp add: dd_append_def)
next
  case (Cons p d)
  obtain k' l where p: "p = (k', l)" by (cases p)
  show ?case
    using Cons.IH by (simp add: p dd_append_def)
qed

lemma group_step_simp [simp]:
  "group_step (model, metric, s) = dd_modify model (dd_append metric s)"
  by (rule ext) (simp add: group_step_def)

lemma fold_group_step:
  "fold (\<lambda>eval d.
           fold (\<lambda>sc. dd_modify (model_name eval) (dd_append (metric_name sc) (score sc)))
             (scores eval) d)
     evaluations d0
   = fold group_step (triples evaluations) d0"
proof (induction evaluations arbitrary: d0)
  case Nil
  show ?case by (simp add: triples_def)
next
  case (Cons e es)
  have "fold (\<lambda>sc. dd_modify (model_name e) (dd_append (metric_name sc) (score sc))) (scores e) d0
        = fold group_step (map (\<lambda>sc. (model_name e, metric_name sc, score sc)) (scores e)) d0"
    by (simp add: fold_map comp_def)
  then show ?case
    using Cons.IH by (simp add: triples_def)
qed

lemma scores_by_model_metric_fold:
  "scores_by_model_metric evaluations = fold group_step (triples evaluations) []"
  by (simp add: scores_by_model_metric_def fold_group_step)

lemma distinct_group: "distinct (map fst d) \<Longrightarrow> distinct (map fst (fold group_step ts d))"
  by (induction ts arbitrary: d) (auto simp: distinct_dd_modify)

lemma keys_group: "fst ` set (fold group_step ts d) = fst ` set d \<union> fst ` set ts"
proof (induction ts arbitrary: d)
  case Nil
  show ?case by simp
next
  case (Cons t ts)
  obtain m k v where t: "t = (m, k, v)" by (cases t)
  have "fst ` set (fold group_step (t # ts) d) = insert m (fst ` set d) \<union> fst ` set ts"
    by (simp add: t Cons.IH keys_dd_modify)
  also have "\<dots> = fst ` set d \<union> fst ` set (t # ts)"
    by (simp add: t)
  finally show ?case .
qed

lemma mset_entry_group_step:
  "mset (concat (map snd (entry (dd_modify m (dd_append k v) d) m')))
     = mset (concat (map snd (entry d m'))) + (if m' = m then {#v#} else {#})"
proof (cases "m' = m")
  case True
  then show ?thesis
    by (simp add: entry_dd_modify mset_concat_dd_append)
next
  case False
  then show ?thesis
    by (simp add: entry_dd_modify)
qed

lemma mset_entry_group:
  "mset (concat (map snd (entry (fold group_step ts d) m)))
     = mset (concat (map snd (entry d m)))
       + mset (map (\<lambda>t. snd (snd t)) (filter (\<lambda>t. fst t = m) ts))"
proof (induction ts arbitrary: d)
  case Nil
  show ?case by simp
next
  case (Cons t ts)
  obtain m' k v where t: "t = (m', k, v)" by (cases t)
  show ?case
    by (simp add: t Cons.IH mset_entry_group_step)
qed

lemma triples_model_scores:
  "map (\<lambda>t. snd (snd t)) (filter (\<lambda>t. fst t = m) (triples evaluations)) = model_scores evaluations m"
proof (induction evaluations)
  case Nil
  show ?case by (simp add: triples_def model_scores_def)
next
  case (Cons e es)
  have "filter (\<lambda>t. fst t = m) (map (\<lambda>sc. (model_name e, metric_name sc, score sc)) (scores e))
        = (if model_name e = m then map (\<lambda>sc. (model_name e, metric_name sc, score sc)) (scores e) else [])"
    by (induction "scores e") (auto simp: filter_map comp_def)
  with Cons show ?case
    by (simp add: triples_def model_scores_def comp_def)
qed

lemma keys_triples: "fst ` set (triples evaluations) = {m. model_scores evaluations m \<noteq> []}"
proof -
  have "m \<in> fst ` set (triples evaluations) \<longleftrightarrow> model_scores evaluations m \<noteq> []" for m
  proof -
    have "m \<in> fst ` set (triples evaluations)
          \<longleftrightarrow> filter (\<lambda>t. fst t = m) (triples evaluations) \<noteq> []"
      by (auto simp: filter_empty_conv)
    also have "\<dots> \<longleftrightarrow> map (\<lambda>t. snd (snd t)) (filter (\<lambda>t. fst t = m) (triples evaluations)) \<noteq> []"
      by simp
    finally show ?thesis by (simp only: triples_model_scores)
  qed
  then show ?thesis by blast
qed

lemma np_mean_mset: "mset xs = mset ys \<Longrightarrow> np_mean xs = np_mean ys"
proof -
  assume a: "mset xs = mset ys"
  then have "sum_list xs = sum_list ys"
    by (metis sum_mset_sum_list)
  moreover have "length xs = length ys"
    using a by (rule mset_eq_length)
  ultimately show ?thesis by (simp add: np_mean_def)
qed

lemma model_averages_entry:
  assumes "(m, s) \<in> set (model_averages_of (scores_by_model_metric evaluations))"
  shows "s = np_mean (model_scores evaluations m)" and "model_scores evaluations m \<noteq> []"
proof -
  let ?G = "scores_by_model_metric evaluations"
  have dist: "distinct (map fst ?G)"
    by (simp add: scores_by_model_metric_fold distinct_group)
  from assms obtain inner where inner: "(m, inner) \<in> set ?G"
    and s: "s = (let all_model_scores = concat (map snd inner)
                 in if all_model_scores = [] then 0 else np_mean all_model_scores)"
    by (auto simp: model_averages_of_def)
  have "map_of ?G m = Some inner"
    using dist inner by (rule map_of_is_SomeI)
  then have "entry ?G m = inner"
    by (simp add: entry_def)
  then have ms: "mset (concat (map snd inner)) = mset (model_scores evaluations m)"
    using mset_entry_group [of "triples evaluations" "[]" m]
    by (simp add: scores_by_model_metric_fold triples_model_scores entry_def)
  have "m \<in> fst ` set ?G"
    using inner by force
  then show ne: "model_scores evaluations m \<noteq> []"
    by (simp add: scores_by_model_metric_fold keys_group keys_triples)
  then have ne': "concat (map snd inner) \<noteq> []"
    using ms by (metis mset_zero_iff)
  have "s = np_mean (concat (map snd inner))"
    unfolding s Let_def by (rule if_not_P) (rule ne')
  then show "s = np_mean (model_scores evaluations m)"
    using np_mean_mset [OF ms] by simp
qed

lemma sorted_reverse_desc: "sorted_wrt (\<lambda>a b. key a \<ge> key b) (sorted_reverse key xs)"
proof -
  have "sorted (map key (sort_key key (rev xs)))"
    by (rule sorted_sort_key)
  then have "sorted_wrt (\<lambda>a b. key a \<le> key b) (sort_key key (rev xs))"
    by (simp add: sorted_map)
  then show ?thesis
    by (simp add: sorted_reverse_def sorted_wrt_rev)
qed

lemma set_sorted_reverse: "set (sorted_reverse key xs) = set xs"
  by (simp add: sorted_reverse_def)

lemma mset_sorted_reverse: "mset (sorted_reverse key xs) = mset xs"
  by (simp add: sorted_reverse_def)

lemma fst_model_averages: "map fst (model_averages_of d) = map fst d"
  by (simp add: model_averages_of_def comp_def split_def)

lemma ranking_example_value:
  "overall_rankings (aggregate_results ranking_example) = [(''B'', 1 / 2), (''A'', 1 / 3)]"
  by (simp add: aggregate_results_def scores_by_model_metric_def dd_modify_def dd_append_def
      eval_of_def ranking_example_def model_averages_of_def sorted_reverse_def np_mean_def Let_def)

lemma tie_values:
  "overall_rankings (aggregate_results tie_AB) = [(''A'', 1 / 2), (''B'', 1 / 2)]"
  "overall_rankings (aggregate_results tie_BA) = [(''B'', 1 / 2), (''A'', 1 / 2)]"
  "best_model_of (aggregate_results tie_AB) ''BLEU-4'' = Some (''A'', 1 / 2)"
  "best_model_of (aggregate_results tie_BA) ''BLEU-4'' = Some (''B'', 1 / 2)"
  by (simp_all add: aggregate_results_def scores_by_model_metric_def dd_modify_def dd_append_def
      eval_of_def tie_AB_def tie_BA_def model_averages_of_def sorted_reverse_def np_mean_def
      best_model_of_def by_metric_of_def metric_means_of_def with_best_model_def entry_def Let_def)

text \<open>
  C5 (global ranking). \<open>overall_rankings\<close> is sorted by descending score; it lists each
  model that has at least one score exactly once; and the score of a model is the
  arithmetic mean of all its scores, over all metrics and all chunks, each score counted
  once (not the mean of its per-metric means).
\<close>

theorem overall_ranking_flattened_mean:
  "sorted_wrt (\<lambda>a b. snd a \<ge> snd b) (overall_rankings (aggregate_results evaluations))
   \<and> distinct (map fst (overall_rankings (aggregate_results evaluations)))
   \<and> fst ` set (overall_rankings (aggregate_results evaluations))
       = {model. model_scores evaluations model \<noteq> []}
   \<and> (\<forall>(model, s)\<in>set (overall_rankings (aggregate_results evaluations)).
         s = np_mean (model_scores evaluations model))"
proof -
  let ?G = "scores_by_model_metric evaluations"
  let ?R = "overall_rankings (aggregate_results evaluations)"
  have R: "?R = sorted_reverse snd (model_averages_of ?G)"
    by (simp add: aggregate_results_def Let_def)
  have 1: "sorted_wrt (\<lambda>a b. snd a \<ge> snd b) ?R"
    unfolding R by (rule sorted_reverse_desc)
  have "mset (map fst ?R) = mset (map fst ?G)"
    unfolding R by (simp add: mset_sorted_reverse fst_model_averages [symmetric])
  moreover have "distinct (map fst ?G)"
    by (simp add: scores_by_model_metric_fold distinct_group)
  ultimately have 2: "distinct (map fst ?R)"
    by (metis mset_eq_imp_distinct_iff)
  have "fst ` set ?R = fst ` set ?G"
    unfolding R set_sorted_reverse using fst_model_averages [of ?G]
    by (metis list.set_map)
  then have 3: "fst ` set ?R = {model. model_scores evaluations model \<noteq> []}"
    by (simp add: scores_by_model_metric_fold keys_group keys_triples)
  have 4: "\<forall>(model, s)\<in>set ?R. s = np_mean (model_scores evaluations model)"
    unfolding R set_sorted_reverse using model_averages_entry(1) by blast
  from 1 2 3 4 show ?thesis by blast
qed

theorem overall_ranking_flattened_mean_witness:
  "overall_rankings (aggregate_results ranking_example) = [(''B'', 1 / 2), (''A'', 1 / 3)]
   \<and> np_mean (model_scores ranking_example ''A'') = 1 / 3"
proof -
  have "(''A'', 1 / 3) \<in> set (overall_rankings (aggregate_results ranking_example))"
    by (simp add: ranking_example_value)
  with overall_ranking_flattened_mean [of ranking_example]
  have "1 / 3 = np_mean (model_scores ranking_example ''A'')"
    by blast
  with ranking_example_value show ?thesis by simp
qed

subsection \<open>Scores of one model and one metric\<close>

lemma scores_of_step:
  "scores_of (dd_modify m' (dd_append k' v) d) m k
     = scores_of d m k @ (if m = m' \<and> k = k' then [v] else [])"
  by (simp add: scores_of_def entry_dd_modify map_of_dd_append split: option.split)

lemma scores_of_group:
  "scores_of (fold group_step ts d) m k
     = scores_of d m k
       @ map (\<lambda>t. snd (snd t)) (filter (\<lambda>t. fst t = m \<and> fst (snd t) = k) ts)"
proof (induction ts arbitrary: d)
  case Nil
  show ?case by simp
next
  case (Cons t ts)
  obtain m' k' v where t: "t = (m', k', v)" by (cases t)
  show ?case
    by (simp add: t Cons.IH scores_of_step)
qed

lemma filter_cells:
  "map (\<lambda>t. snd (snd t))
     (filter (\<lambda>t. fst t = m \<and> fst (snd t) = k) (map (\<lambda>sc. (m', metric_name sc, score sc)) scs))
   = (if m' = m then map score (filter (\<lambda>sc. metric_name sc = k) scs) else [])"
  by (induction scs) auto

lemma scores_of_Nil [simp]: "scores_of [] m k = []"
  by (simp add: scores_of_def entry_def)

lemma triples_metric_scores:
  "map (\<lambda>t. snd (snd t)) (filter (\<lambda>t. fst t = m \<and> fst (snd t) = k) (triples evaluations))
     = metric_scores evaluations m k"
proof (induction evaluations)
  case Nil
  show ?case by (simp add: triples_def metric_scores_def)
next
  case (Cons e es)
  from Cons show ?case
    by (simp add: triples_def metric_scores_def filter_cells)
qed

lemma scores_of_grouped:
  "scores_of (scores_by_model_metric evaluations) m k = metric_scores evaluations m k"
  by (simp add: scores_by_model_metric_fold scores_of_group triples_metric_scores)

text \<open>Well-formed groups: the inner keys are distinct and no list is empty.\<close>

lemma inner_distinct_group:
  "(\<And>m. distinct (map fst (entry d m)))
   \<Longrightarrow> distinct (map fst (entry (fold group_step ts d) m))"
proof (induction ts arbitrary: d m)
  case Nil
  then show ?case by simp
next
  case (Cons t ts)
  obtain m' k' v where t: "t = (m', k', v)" by (cases t)
  have "distinct (map fst (entry (dd_modify m' (dd_append k' v) d) m))" for m
    using Cons.prems by (simp add: entry_dd_modify distinct_dd_append)
  then show ?case
    using Cons.IH [of "dd_modify m' (dd_append k' v) d" m] by (simp add: t)
qed

lemma inner_nonempty_group:
  "(\<And>m k xs. map_of (entry d m) k = Some xs \<Longrightarrow> xs \<noteq> [])
   \<Longrightarrow> map_of (entry (fold group_step ts d) m) k = Some xs \<Longrightarrow> xs \<noteq> []"
proof (induction ts arbitrary: d m k xs)
  case Nil
  then show ?case by simp
next
  case (Cons t ts)
  obtain m' k' v where t: "t = (m', k', v)" by (cases t)
  have "map_of (entry (dd_modify m' (dd_append k' v) d) m) k = Some xs \<Longrightarrow> xs \<noteq> []" for m k xs
    using Cons.prems(1) [of m k xs]
    by (auto simp: entry_dd_modify map_of_dd_append split: if_splits)
  then show ?case
    using Cons.IH [of "dd_modify m' (dd_append k' v) d" m k xs] Cons.prems(2) by (simp add: t)
qed

lemma entry_Nil [simp]: "entry [] m = []"
  by (simp add: entry_def)

lemma map_of_grouped:
  "map_of (entry (scores_by_model_metric evaluations) m) k
     = (if metric_scores evaluations m k = [] then None else Some (metric_scores evaluations m k))"
proof (cases "map_of (entry (scores_by_model_metric evaluations) m) k")
  case None
  then have "scores_of (scores_by_model_metric evaluations) m k = []"
    by (simp add: scores_of_def)
  with None show ?thesis by (simp add: scores_of_grouped)
next
  case (Some xs)
  then have "xs \<noteq> []"
    using inner_nonempty_group [of "[]" "triples evaluations" m k xs]
    by (simp add: scores_by_model_metric_fold)
  moreover have "scores_of (scores_by_model_metric evaluations) m k = xs"
    using Some by (simp add: scores_of_def)
  ultimately show ?thesis
    using Some by (simp add: scores_of_grouped)
qed

lemma entry_map_values:
  "f [] = [] \<Longrightarrow> entry (map (\<lambda>(k, v). (k, f v)) d) k = f (entry d k)"
  by (simp add: entry_def map_of_map split: option.split)

subsection \<open>Permutations of the evaluations\<close>

lemma mset_concat_map_perm:
  assumes "mset xs = mset ys"
  shows "mset (concat (map f xs)) = mset (concat (map f ys))"
proof -
  have "mset (concat (map f zs)) = sum_mset (image_mset (\<lambda>z. mset (f z)) (mset zs))" for zs
    by (induction zs) simp_all
  with assms show ?thesis by simp
qed

lemma mset_filter_perm: "mset xs = mset ys \<Longrightarrow> mset (filter P xs) = mset (filter P ys)"
  by simp

lemma model_scores_perm:
  "mset evaluations = mset evaluations'
   \<Longrightarrow> mset (model_scores evaluations m) = mset (model_scores evaluations' m)"
  unfolding model_scores_def by (intro mset_concat_map_perm mset_filter_perm)

lemma metric_scores_perm:
  "mset evaluations = mset evaluations'
   \<Longrightarrow> mset (metric_scores evaluations m k) = mset (metric_scores evaluations' m k)"
  unfolding metric_scores_def by (intro mset_concat_map_perm mset_filter_perm)

lemma mset_eq_Nil_iff: "mset xs = mset ys \<Longrightarrow> xs = [] \<longleftrightarrow> ys = []"
  by (metis mset_zero_iff)

lemma np_std_mset:
  assumes "mset xs = mset ys"
  shows "np_std xs = np_std ys"
proof -
  have eq: "np_mean xs = np_mean ys"
    using assms by (rule np_mean_mset)
  have "mset (map (\<lambda>x. (abs (x - np_mean ys))\<^sup>2) xs) = mset (map (\<lambda>x. (abs (x - np_mean ys))\<^sup>2) ys)"
    using assms by simp
  then have "np_mean (map (\<lambda>x. (abs (x - np_mean ys))\<^sup>2) xs)
             = np_mean (map (\<lambda>x. (abs (x - np_mean ys))\<^sup>2) ys)"
    by (rule np_mean_mset)
  then show ?thesis
    unfolding np_std_def eq by (rule arg_cong)
qed

subsection \<open>Sorting and the first maximum\<close>

lemma sort_key_unique:
  assumes "set xs = set ys" "distinct (map f xs)" "distinct (map f ys)"
  shows "sort_key f xs = sort_key f ys"
proof -
  have "map f (sort_key f xs) = map f (sort_key f ys)"
  proof (rule sorted_distinct_set_unique)
    show "sorted (map f (sort_key f xs))" "sorted (map f (sort_key f ys))"
      by (rule sorted_sort_key)+
    have "mset (map f (sort_key f xs)) = mset (map f xs)"
      by simp
    then show "distinct (map f (sort_key f xs))"
      using assms(2) by (metis mset_eq_imp_distinct_iff)
    have "mset (map f (sort_key f ys)) = mset (map f ys)"
      by simp
    then show "distinct (map f (sort_key f ys))"
      using assms(3) by (metis mset_eq_imp_distinct_iff)
    show "set (map f (sort_key f xs)) = set (map f (sort_key f ys))"
      using assms(1) by simp
  qed
  moreover have "inj_on f (set (sort_key f xs) \<union> set (sort_key f ys))"
    using assms(1,2) by (simp add: distinct_map)
  ultimately show ?thesis
    by (simp add: inj_on_map_eq_map)
qed

lemma sorted_reverse_unique:
  assumes "set xs = set ys" "distinct (map f xs)" "distinct (map f ys)"
  shows "sorted_reverse f xs = sorted_reverse f ys"
  unfolding sorted_reverse_def
  using sort_key_unique [of "rev xs" "rev ys" f] assms by (simp add: rev_map [symmetric])

lemma keys_grouped:
  "set (map fst (scores_by_model_metric evaluations)) = {m. model_scores evaluations m \<noteq> []}"
  by (simp add: scores_by_model_metric_fold keys_group keys_triples)

lemma distinct_grouped: "distinct (map fst (scores_by_model_metric evaluations))"
  by (simp add: scores_by_model_metric_fold distinct_group)

lemma max_from_member: "max_from key b xs \<in> set (b # xs)"
  by (induction xs arbitrary: b) auto

lemma max_from_greatest: "x \<in> set (b # xs) \<Longrightarrow> key x \<le> key (max_from key b xs)"
proof (induction xs arbitrary: b x)
  case Nil
  then show ?case by simp
next
  case (Cons y ys)
  show ?case
    using Cons.prems Cons.IH [of y y] Cons.IH [of b b] Cons.IH [of x y] Cons.IH [of x b]
    by (auto simp: not_less)
qed

lemma with_best_model_Nil [simp]: "with_best_model [] = []"
  by (simp add: with_best_model_def)

subsection \<open>The summary for any mean and standard deviation\<close>

lemma stats_with_np: "stats_with np_mean np_std = stats_of"
  by (rule ext) (simp add: stats_with_def stats_of_def)

lemma aggregate_results_with_np:
  "aggregate_results_with np_mean np_std evaluations = aggregate_results evaluations"
  by (simp add: aggregate_results_with_def aggregate_results_def by_model_with_def by_model_of_def
      stats_with_np model_averages_with_def model_averages_of_def by_metric_with_def
      by_metric_of_def metric_means_with_def metric_means_of_def by_reference_with_def
      by_reference_of_def)

lemma by_model_lookup_with:
  "by_model_lookup (aggregate_results_with mean std evaluations) m k
     = (if metric_scores evaluations m k = [] then None
        else Some (stats_with mean std (metric_scores evaluations m k)))"
proof -
  have "entry (by_model_with mean std (scores_by_model_metric evaluations)) m
        = map (\<lambda>(metric, xs). (metric, stats_with mean std xs))
            (entry (scores_by_model_metric evaluations) m)"
    unfolding by_model_with_def by (rule entry_map_values) simp
  then show ?thesis
    by (simp add: by_model_lookup_def aggregate_results_with_def Let_def map_of_map map_of_grouped)
qed

subsection \<open>The order of the keys\<close>

lemma set_first_seen [simp]: "set (first_seen xs) = set xs"
  by (induction xs) auto

lemma distinct_first_seen [simp]: "distinct (first_seen xs)"
  by (induction xs) auto

lemma keys_dd_modify_order:
  "map fst (dd_modify a f d) = (if a \<in> fst ` set d then map fst d else map fst d @ [a])"
  by (simp add: dd_modify_def update_keys)

lemma keys_group_order:
  "map fst (fold group_step ts d)
     = map fst d @ filter (\<lambda>m. m \<notin> fst ` set d) (first_seen (map fst ts))"
proof (induction ts arbitrary: d)
  case Nil
  show ?case by simp
next
  case (Cons t ts)
  obtain m k v where t: "t = (m, k, v)" by (cases t)
  let ?d = "dd_modify m (dd_append k v) d"
  have IH: "map fst (fold group_step ts ?d)
            = map fst ?d @ filter (\<lambda>x. x \<notin> fst ` set ?d) (first_seen (map fst ts))"
    by (rule Cons.IH)
  show ?case
  proof (cases "m \<in> fst ` set d")
    case True
    then have "filter (\<lambda>x. x \<notin> fst ` set d) (filter (\<lambda>y. y \<noteq> m) (first_seen (map fst ts)))
               = filter (\<lambda>x. x \<notin> fst ` set d) (first_seen (map fst ts))"
      by (auto intro: filter_cong)
    with True IH show ?thesis
      by (simp add: t keys_dd_modify_order keys_dd_modify insert_absorb)
  next
    case False
    have "filter (\<lambda>x. x \<notin> fst ` set d) (filter (\<lambda>y. y \<noteq> m) (first_seen (map fst ts)))
          = filter (\<lambda>x. x \<notin> insert m (fst ` set d)) (first_seen (map fst ts))"
      by (auto intro: filter_cong)
    with False IH show ?thesis
      by (simp add: t keys_dd_modify_order keys_dd_modify)
  qed
qed

lemma keys_grouped_order:
  "map fst (scores_by_model_metric evaluations) = scored_models evaluations"
  by (simp add: scores_by_model_metric_fold keys_group_order scored_models_def)

lemma set_scored_models:
  "set (scored_models evaluations) = {m. model_scores evaluations m \<noteq> []}"
  using keys_grouped [of evaluations] by (simp only: keys_grouped_order)

lemma distinct_scored_models: "distinct (scored_models evaluations)"
  by (simp add: scored_models_def)

lemma scored_models_perm:
  assumes "mset evaluations = mset evaluations'"
  shows "set (scored_models evaluations) = set (scored_models evaluations')"
proof -
  have "model_scores evaluations m = [] \<longleftrightarrow> model_scores evaluations' m = []" for m
    using model_scores_perm [OF assms, of m] by (rule mset_eq_Nil_iff)
  then show ?thesis
    by (simp add: set_scored_models)
qed

subsection \<open>The ranking\<close>

lemma sorted_reverse_stable:
  "filter (\<lambda>x. key x = v) (sorted_reverse key xs) = filter (\<lambda>x. key x = v) xs"
proof -
  have "filter (\<lambda>x. key x = v) (sorted_reverse key xs)
        = rev (filter (\<lambda>x. key x = v) (sort_key key (rev xs)))"
    by (simp add: sorted_reverse_def rev_filter)
  also have "\<dots> = rev (filter (\<lambda>x. key x = v) (rev xs))"
    by (simp only: sort_key_stable)
  also have "\<dots> = filter (\<lambda>x. key x = v) xs"
    by (simp add: rev_filter)
  finally show ?thesis .
qed

lemma mset_all_model_scores:
  "mset (all_model_scores evaluations m) = mset (model_scores evaluations m)"
  using mset_entry_group [of "triples evaluations" "[]" m]
  by (simp add: all_model_scores_def scores_by_model_metric_fold triples_model_scores)

lemma all_model_scores_perm:
  assumes "mset evaluations = mset evaluations'"
  shows "mset (all_model_scores evaluations m) = mset (all_model_scores evaluations' m)"
  using model_scores_perm [OF assms, of m] by (simp only: mset_all_model_scores)

lemma grouped_inner:
  assumes "(m, inner) \<in> set (scores_by_model_metric evaluations)"
  shows "entry (scores_by_model_metric evaluations) m = inner"
proof -
  have "map_of (scores_by_model_metric evaluations) m = Some inner"
    using distinct_grouped assms by (rule map_of_is_SomeI)
  then show ?thesis
    by (simp add: entry_def)
qed

lemma model_averages_with_eq:
  "model_averages_with mean (scores_by_model_metric evaluations)
     = map (\<lambda>m. (m, mean (all_model_scores evaluations m))) (scored_models evaluations)"
proof -
  let ?G = "scores_by_model_metric evaluations"
  have "(case p of (model, inner) \<Rightarrow>
            (model,
             let all_model_scores = concat (map snd inner)
             in if all_model_scores = [] then 0 else mean all_model_scores))
        = (fst p, mean (all_model_scores evaluations (fst p)))"
    if "p \<in> set ?G" for p
  proof -
    obtain m inner where p: "p = (m, inner)" by (cases p)
    with that have e: "entry ?G m = inner"
      by (simp add: grouped_inner)
    have "m \<in> set (map fst ?G)"
      using that p by force
    then have "model_scores evaluations m \<noteq> []"
      by (simp only: keys_grouped) simp
    then have "all_model_scores evaluations m \<noteq> []"
      using mset_all_model_scores [of evaluations m] by (metis mset_zero_iff)
    then have "concat (map snd inner) \<noteq> []"
      unfolding all_model_scores_def e .
    moreover have "all_model_scores evaluations m = concat (map snd inner)"
      by (simp only: all_model_scores_def e)
    ultimately show ?thesis
      unfolding p by (simp only: prod.case Let_def fst_conv if_False simp_thms)
  qed
  then have "model_averages_with mean ?G
             = map (\<lambda>p. (fst p, mean (all_model_scores evaluations (fst p)))) ?G"
    unfolding model_averages_with_def by (intro map_cong) simp_all
  also have "\<dots> = map (\<lambda>m. (m, mean (all_model_scores evaluations m))) (map fst ?G)"
    by (simp add: comp_def)
  finally show ?thesis
    by (simp only: keys_grouped_order)
qed

lemma rankings_with_eq:
  "overall_rankings (aggregate_results_with mean std evaluations)
     = sorted_reverse snd
         (map (\<lambda>m. (m, mean (all_model_scores evaluations m))) (scored_models evaluations))"
  by (simp add: aggregate_results_with_def Let_def model_averages_with_eq)

lemma rankings_models:
  "fst ` set (overall_rankings (aggregate_results_with mean std evaluations))
     = set (scored_models evaluations)"
  by (simp add: rankings_with_eq set_sorted_reverse image_image)

lemma rankings_ties:
  "filter (\<lambda>p. snd p = v) (overall_rankings (aggregate_results_with mean std evaluations))
     = map (\<lambda>m. (m, v))
         (filter (\<lambda>m. mean (all_model_scores evaluations m) = v) (scored_models evaluations))"
proof -
  have "filter (\<lambda>p. snd p = v) (overall_rankings (aggregate_results_with mean std evaluations))
        = filter (\<lambda>p. snd p = v)
            (map (\<lambda>m. (m, mean (all_model_scores evaluations m))) (scored_models evaluations))"
    by (simp only: rankings_with_eq sorted_reverse_stable)
  also have "\<dots> = map (\<lambda>m. (m, mean (all_model_scores evaluations m)))
                     (filter (\<lambda>m. mean (all_model_scores evaluations m) = v)
                        (scored_models evaluations))"
    by (simp add: filter_map comp_def)
  also have "\<dots> = map (\<lambda>m. (m, v))
                     (filter (\<lambda>m. mean (all_model_scores evaluations m) = v)
                        (scored_models evaluations))"
    by (intro map_cong) simp_all
  finally show ?thesis .
qed

lemma rankings_with_perm:
  assumes "mset evaluations = mset evaluations'"
    and "\<forall>m. mean (all_model_scores evaluations m) = mean (all_model_scores evaluations' m)"
    and "inj_on (\<lambda>m. mean (all_model_scores evaluations m)) {m. model_scores evaluations m \<noteq> []}"
  shows "overall_rankings (aggregate_results_with mean std evaluations)
         = overall_rankings (aggregate_results_with mean std evaluations')"
proof -
  let ?A = "\<lambda>m. mean (all_model_scores evaluations m)"
  let ?xs = "map (\<lambda>m. (m, ?A m)) (scored_models evaluations)"
  let ?ys = "map (\<lambda>m. (m, ?A m)) (scored_models evaluations')"
  have K: "set (scored_models evaluations') = set (scored_models evaluations)"
    using scored_models_perm [OF assms(1)] by simp
  have s: "set ?xs = set ?ys"
    by (simp add: K)
  have inj: "inj_on ?A (set (scored_models evaluations))"
    using assms(3) by (simp only: set_scored_models)
  then have "distinct (map ?A (scored_models evaluations))"
    by (intro distinct_map [THEN iffD2] conjI distinct_scored_models)
  then have dx: "distinct (map snd ?xs)"
    by (simp add: comp_def)
  have "inj_on ?A (set (scored_models evaluations'))"
    using inj unfolding K .
  then have "distinct (map ?A (scored_models evaluations'))"
    by (intro distinct_map [THEN iffD2] conjI distinct_scored_models)
  then have dy: "distinct (map snd ?ys)"
    by (simp add: comp_def)
  have "overall_rankings (aggregate_results_with mean std evaluations') = sorted_reverse snd ?ys"
    using assms(2) by (simp add: rankings_with_eq)
  then show ?thesis
    using sorted_reverse_unique [OF s dx dy] by (simp add: rankings_with_eq)
qed


subsection \<open>The per-metric means\<close>

lemma cell_step_with_simp [simp]:
  "cell_step_with mean (model, metric, xs) = dd_modify metric (AList.update model (mean xs))"
  by (rule ext) (simp add: cell_step_with_def)

lemma fold_cell_step_with:
  "fold (\<lambda>(model, by_metric) d.
           fold (\<lambda>(metric, xs). dd_modify metric (AList.update model (mean xs))) by_metric d)
     sbmm d0
   = fold (cell_step_with mean) (cells sbmm) d0"
proof (induction sbmm arbitrary: d0)
  case Nil
  show ?case by (simp add: cells_def)
next
  case (Cons p rest)
  obtain m inner where p: "p = (m, inner)" by (cases p)
  have "fold (\<lambda>(metric, xs). dd_modify metric (AList.update m (mean xs))) inner d
        = fold (cell_step_with mean) (map (\<lambda>(metric, xs). (m, metric, xs)) inner) d" for d
    by (induction inner arbitrary: d) auto
  then show ?case
    using Cons.IH by (simp add: p cells_def)
qed

lemma metric_means_with_fold:
  "metric_means_with mean sbmm = fold (cell_step_with mean) (cells sbmm) []"
  by (simp add: metric_means_with_def fold_cell_step_with)

lemma cell_entry_fold:
  "entry (fold (cell_step_with mean) cs d) k
     = fold (\<lambda>p. AList.update (fst p) (snd p))
         (map (\<lambda>c. (fst c, mean (snd (snd c)))) (filter (\<lambda>c. fst (snd c) = k) cs))
         (entry d k)"
proof (induction cs arbitrary: d)
  case Nil
  show ?case by simp
next
  case (Cons c cs)
  obtain m' k' xs where c: "c = (m', k', xs)" by (cases c)
  show ?case
    by (simp add: c Cons.IH entry_dd_modify)
qed

lemma update_fresh: "k \<notin> fst ` set al \<Longrightarrow> AList.update k v al = al @ [(k, v)]"
  by (induction al) auto

lemma fold_update_fresh:
  "distinct (map fst ps) \<Longrightarrow> fst ` set ps \<inter> fst ` set l = {}
   \<Longrightarrow> fold (\<lambda>p. AList.update (fst p) (snd p)) ps l = l @ ps"
proof (induction ps arbitrary: l)
  case Nil
  show ?case by simp
next
  case (Cons p ps)
  have "fst p \<notin> fst ` set l"
    using Cons.prems(2) by auto
  then have u: "AList.update (fst p) (snd p) l = l @ [p]"
    by (simp add: update_fresh)
  have "fst ` set ps \<inter> fst ` set (l @ [p]) = {}"
    using Cons.prems by auto
  with Cons.IH [of "l @ [p]"] Cons.prems(1) u show ?case
    by simp
qed

lemma filter_inner:
  "distinct (map fst inner)
   \<Longrightarrow> filter (\<lambda>p. fst p = k) inner = (case map_of inner k of None \<Rightarrow> [] | Some xs \<Rightarrow> [(k, xs)])"
proof (induction inner)
  case Nil
  show ?case by simp
next
  case (Cons p rest)
  obtain k' xs where p: "p = (k', xs)" by (cases p)
  show ?case
  proof (cases "k' = k")
    case True
    then have "k \<notin> fst ` set rest"
      using Cons.prems p by auto
    then have "filter (\<lambda>p. fst p = k) rest = []"
      by (auto simp: filter_empty_conv)
    with True show ?thesis
      by (simp add: p)
  next
    case False
    with Cons show ?thesis
      by (simp add: p)
  qed
qed

lemma concat_map_if: "concat (map (\<lambda>x. if P x then [f x] else []) xs) = map f (filter P xs)"
  by (induction xs) auto

lemma cells_filter_grouped:
  "filter (\<lambda>c. fst (snd c) = k) (cells (scores_by_model_metric evaluations))
     = map (\<lambda>m. (m, k, metric_scores evaluations m k))
         (filter (\<lambda>m. metric_scores evaluations m k \<noteq> []) (scored_models evaluations))"
proof -
  let ?G = "scores_by_model_metric evaluations"
  let ?F = "\<lambda>m. if metric_scores evaluations m k \<noteq> [] then [(m, k, metric_scores evaluations m k)] else []"
  have one: "filter (\<lambda>c. fst (snd c) = k) (case p of (m, inner) \<Rightarrow> map (\<lambda>(metric, xs). (m, metric, xs)) inner)
             = ?F (fst p)"
    if "p \<in> set ?G" for p
  proof -
    obtain m inner where p: "p = (m, inner)" by (cases p)
    with that have e: "entry ?G m = inner"
      by (simp add: grouped_inner)
    have "distinct (map fst (entry ?G m))"
      unfolding scores_by_model_metric_fold by (rule inner_distinct_group) simp
    then have d: "distinct (map fst inner)"
      by (simp only: e)
    have "filter (\<lambda>c. fst (snd c) = k) (map (\<lambda>(metric, xs). (m, metric, xs)) inner)
          = map (\<lambda>(metric, xs). (m, metric, xs)) (filter (\<lambda>p. fst p = k) inner)"
      by (simp add: filter_map comp_def split_def)
    also have "\<dots> = (case map_of inner k of None \<Rightarrow> [] | Some xs \<Rightarrow> [(m, k, xs)])"
      by (simp add: filter_inner [OF d] split: option.split)
    also have "map_of inner k = (if metric_scores evaluations m k = [] then None
                                 else Some (metric_scores evaluations m k))"
      using map_of_grouped [of evaluations m k] by (simp only: e)
    finally show ?thesis
      by (simp add: p)
  qed
  have "filter (\<lambda>c. fst (snd c) = k) (cells ?G)
        = concat (map (\<lambda>p. filter (\<lambda>c. fst (snd c) = k)
                              (case p of (m, inner) \<Rightarrow> map (\<lambda>(metric, xs). (m, metric, xs)) inner)) ?G)"
    by (simp add: cells_def filter_concat comp_def)
  also have "\<dots> = concat (map (\<lambda>p. ?F (fst p)) ?G)"
    using one by (intro arg_cong [where f = concat] map_cong) simp_all
  also have "\<dots> = concat (map ?F (map fst ?G))"
    by (simp add: comp_def)
  also have "\<dots> = map (\<lambda>m. (m, k, metric_scores evaluations m k))
                     (filter (\<lambda>m. metric_scores evaluations m k \<noteq> []) (map fst ?G))"
    by (rule concat_map_if)
  finally show ?thesis
    by (simp only: keys_grouped_order)
qed

lemma means_with_entry:
  "entry (metric_means_with mean (scores_by_model_metric evaluations)) k
     = map (\<lambda>m. (m, mean (metric_scores evaluations m k)))
         (filter (\<lambda>m. metric_scores evaluations m k \<noteq> []) (scored_models evaluations))"
proof -
  let ?ms = "filter (\<lambda>m. metric_scores evaluations m k \<noteq> []) (scored_models evaluations)"
  let ?ps = "map (\<lambda>m. (m, mean (metric_scores evaluations m k))) ?ms"
  have "entry (metric_means_with mean (scores_by_model_metric evaluations)) k
        = fold (\<lambda>p. AList.update (fst p) (snd p)) ?ps []"
    by (simp add: metric_means_with_fold cell_entry_fold cells_filter_grouped comp_def)
  moreover have "distinct (map fst ?ps)"
    by (simp add: comp_def distinct_scored_models)
  ultimately show ?thesis
    by (simp add: fold_update_fresh)
qed

subsection \<open>The best model of a metric\<close>

lemma max_from_first:
  "\<exists>before after. b # xs = before @ max_from key b xs # after
     \<and> (\<forall>c\<in>set before. key c < key (max_from key b xs))
     \<and> (\<forall>c\<in>set after. key c \<le> key (max_from key b xs))"
proof (induction xs arbitrary: b)
  case Nil
  show ?case
    by (rule exI [of _ "[]"], rule exI [of _ "[]"]) simp
next
  case (Cons x xs)
  show ?case
  proof (cases "key x > key b")
    case True
    from Cons.IH [of x] obtain before after where
      d: "x # xs = before @ max_from key x xs # after"
      "\<forall>c\<in>set before. key c < key (max_from key x xs)"
      "\<forall>c\<in>set after. key c \<le> key (max_from key x xs)"
      by blast
    have "key x \<le> key (max_from key x xs)"
      by (rule max_from_greatest) simp
    with True have "key b < key (max_from key x xs)"
      by simp
    with d have "b # x # xs = (b # before) @ max_from key x xs # after
      \<and> (\<forall>c\<in>set (b # before). key c < key (max_from key x xs))
      \<and> (\<forall>c\<in>set after. key c \<le> key (max_from key x xs))"
      by simp
    with True show ?thesis
      by (simp del: append_Cons set_simps) blast
  next
    case False
    from Cons.IH [of b] obtain before after where
      d: "b # xs = before @ max_from key b xs # after"
      "\<forall>c\<in>set before. key c < key (max_from key b xs)"
      "\<forall>c\<in>set after. key c \<le> key (max_from key b xs)"
      by blast
    show ?thesis
    proof (cases before)
      case Nil
      with d have "b # x # xs = [] @ max_from key b xs # (x # after)
        \<and> (\<forall>c\<in>set (x # after). key c \<le> key (max_from key b xs))"
        using False by auto
      with False show ?thesis
        by (simp del: append_Cons append_Nil set_simps) (metis empty_iff list.set(1))
    next
      case (Cons b' before')
      with d have b': "b' = b" "xs = before' @ max_from key b xs # after"
        by auto
      with d(2) Cons have "key b < key (max_from key b xs)"
        by simp
      with False have "key x < key (max_from key b xs)"
        by simp
      with d Cons b' have "b # x # xs = (b # x # before') @ max_from key b xs # after
        \<and> (\<forall>c\<in>set (b # x # before'). key c < key (max_from key b xs))
        \<and> (\<forall>c\<in>set after. key c \<le> key (max_from key b xs))"
        by simp
      with False show ?thesis
        by (simp del: append_Cons set_simps) blast
    qed
  qed
qed

lemma best_model_with_eq:
  "best_model_of (aggregate_results_with mean std evaluations) k
     = (case metric_candidates mean evaluations k of
          [] \<Rightarrow> None
        | first # others \<Rightarrow> Some (max_from snd first others))"
proof -
  let ?means = "entry (metric_means_with mean (scores_by_model_metric evaluations)) k"
  have e: "entry (by_metric (aggregate_results_with mean std evaluations)) k = with_best_model ?means"
    unfolding aggregate_results_with_def Let_def by_metric_with_def
    by (simp add: entry_map_values)
  have c: "filter (\<lambda>(m, v). m \<noteq> ''best_model'') ?means = metric_candidates mean evaluations k"
    by (simp add: means_with_entry metric_candidates_def filter_map comp_def)
  show ?thesis
  proof (cases "metric_candidates mean evaluations k")
    case Nil
    have "map_of (map (\<lambda>(k, v). (k, ModelMean v)) ?means) ''best_model''
          = map_option ModelMean (map_of ?means ''best_model'')"
      by (simp add: map_of_map)
    then show ?thesis
      using c by (simp add: best_model_of_def e with_best_model_def Nil split: option.split)
  next
    case (Cons first others)
    then show ?thesis
      using c by (simp add: best_model_of_def e with_best_model_def Let_def update_conv')
  qed
qed

lemma best_model_first:
  "case best_model_of (aggregate_results_with mean std evaluations) k of
     None \<Rightarrow> metric_candidates mean evaluations k = []
   | Some best \<Rightarrow>
       (\<exists>before after. metric_candidates mean evaluations k = before @ best # after
          \<and> (\<forall>c\<in>set before. snd c < snd best) \<and> (\<forall>c\<in>set after. snd c \<le> snd best))"
proof (cases "metric_candidates mean evaluations k")
  case Nil
  then show ?thesis by (simp add: best_model_with_eq)
next
  case (Cons first others)
  then show ?thesis
    using max_from_first [of first others snd] by (simp add: best_model_with_eq)
qed

lemma set_metric_candidates:
  "set (metric_candidates mean evaluations k)
     = {(m, v). metric_scores evaluations m k \<noteq> [] \<and> m \<noteq> ''best_model''
                \<and> v = mean (metric_scores evaluations m k)}"
proof -
  have "metric_scores evaluations m k \<noteq> [] \<Longrightarrow> m \<in> set (scored_models evaluations)" for m
  proof -
    assume "metric_scores evaluations m k \<noteq> []"
    then have "map_of (entry (scores_by_model_metric evaluations) m) k \<noteq> None"
      by (simp add: map_of_grouped)
    then have "entry (scores_by_model_metric evaluations) m \<noteq> []"
      by auto
    then have "map_of (scores_by_model_metric evaluations) m \<noteq> None"
      by (cases "map_of (scores_by_model_metric evaluations) m") (simp_all add: entry_def)
    then have "m \<in> fst ` set (scores_by_model_metric evaluations)"
      by (simp add: map_of_eq_None_iff)
    then show ?thesis
      using keys_grouped_order [of evaluations] by (metis set_map)
  qed
  then show ?thesis
    by (auto simp: metric_candidates_def)
qed

lemma first_greatest:
  fixes cs :: "('a \<times> real) list"
  assumes "cs = before @ best # after" "\<forall>c\<in>set before. snd c < snd best"
    "\<forall>c\<in>set after. snd c \<le> snd best"
  shows "best \<in> set cs \<and> (\<forall>c\<in>set cs. snd c \<le> snd best)"
proof -
  have "snd c \<le> snd best" if "c \<in> set before" for c
    using assms(2) that by (simp add: less_imp_le)
  with assms(1,3) show ?thesis
    by auto
qed

lemma best_model_greatest:
  "case best_model_of (aggregate_results_with mean std evaluations) k of
     None \<Rightarrow> metric_candidates mean evaluations k = []
   | Some best \<Rightarrow> best \<in> set (metric_candidates mean evaluations k)
                 \<and> (\<forall>c\<in>set (metric_candidates mean evaluations k). snd c \<le> snd best)"
proof (cases "best_model_of (aggregate_results_with mean std evaluations) k")
  case None
  with best_model_first [where mean = mean and std = std and evaluations = evaluations and k = k]
  show ?thesis by simp
next
  case (Some best)
  with best_model_first [where mean = mean and std = std and evaluations = evaluations and k = k]
  obtain before after where "metric_candidates mean evaluations k = before @ best # after"
    "\<forall>c\<in>set before. snd c < snd best" "\<forall>c\<in>set after. snd c \<le> snd best"
    by auto
  then have "best \<in> set (metric_candidates mean evaluations k)
             \<and> (\<forall>c\<in>set (metric_candidates mean evaluations k). snd c \<le> snd best)"
    by (rule first_greatest)
  with Some show ?thesis by simp
qed

lemma best_model_with_perm:
  assumes "mset evaluations = mset evaluations'"
    and "\<forall>m. mean (metric_scores evaluations m k) = mean (metric_scores evaluations' m k)"
    and "inj_on (\<lambda>m. mean (metric_scores evaluations m k)) {m. metric_scores evaluations m k \<noteq> []}"
  shows "best_model_of (aggregate_results_with mean std evaluations) k
         = best_model_of (aggregate_results_with mean std evaluations') k"
proof -
  let ?C = "set (metric_candidates mean evaluations k)"
  have "metric_scores evaluations m k = [] \<longleftrightarrow> metric_scores evaluations' m k = []" for m
    using metric_scores_perm [OF assms(1), of m k] by (rule mset_eq_Nil_iff)
  with assms(2) have C: "set (metric_candidates mean evaluations' k) = ?C"
    by (simp add: set_metric_candidates)
  have inj: "c = c'" if "c \<in> ?C" "c' \<in> ?C" "snd c = snd c'" for c c'
  proof -
    obtain m v m' v' where c: "c = (m, v)" "c' = (m', v')"
      by (cases c, cases c')
    with that have "m \<in> {m. metric_scores evaluations m k \<noteq> []}"
      "m' \<in> {m. metric_scores evaluations m k \<noteq> []}"
      "mean (metric_scores evaluations m k) = mean (metric_scores evaluations m' k)"
      "v = v'"
      by (auto simp: set_metric_candidates)
    with assms(3) have "m = m'"
      by (meson inj_onD)
    with c \<open>v = v'\<close> show ?thesis by simp
  qed
  note a = best_model_greatest [where mean = mean and std = std and evaluations = evaluations and k = k]
  note b = best_model_greatest [where mean = mean and std = std and evaluations = evaluations' and k = k,
      unfolded C]
  show ?thesis
  proof (cases "best_model_of (aggregate_results_with mean std evaluations) k")
    case None
    with a have "?C = {}" by simp
    with b have "best_model_of (aggregate_results_with mean std evaluations') k = None"
      by (cases "best_model_of (aggregate_results_with mean std evaluations') k") auto
    with None show ?thesis by simp
  next
    case (Some best)
    with a have best: "best \<in> ?C" "\<forall>c\<in>?C. snd c \<le> snd best"
      by simp_all
    then have "metric_candidates mean evaluations' k \<noteq> []"
      using C by auto
    then obtain best' where Some': "best_model_of (aggregate_results_with mean std evaluations') k = Some best'"
      using b by (cases "best_model_of (aggregate_results_with mean std evaluations') k") auto
    with b have best': "best' \<in> ?C" "\<forall>c\<in>?C. snd c \<le> snd best'"
      by simp_all
    from best best' have "snd best = snd best'"
      by (meson order_antisym)
    with best(1) best'(1) have "best = best'"
      by (rule inj)
    with Some Some' show ?thesis by simp
  qed
qed


subsection \<open>The statistics of a model and a metric\<close>

lemma by_model_order_free:
  assumes "mset evaluations = mset evaluations'"
  shows "map_option (\<lambda>s. (stat_min s, stat_max s, stat_count s))
           (by_model_lookup (aggregate_results_with mean std evaluations) m k)
         = map_option (\<lambda>s. (stat_min s, stat_max s, stat_count s))
             (by_model_lookup (aggregate_results_with mean std evaluations') m k)"
proof -
  note p = metric_scores_perm [OF assms, of m k]
  have "metric_scores evaluations m k = [] \<longleftrightarrow> metric_scores evaluations' m k = []"
    using p by (rule mset_eq_Nil_iff)
  moreover have "set (metric_scores evaluations m k) = set (metric_scores evaluations' m k)"
    using p by (rule mset_eq_setD)
  moreover have "length (metric_scores evaluations m k) = length (metric_scores evaluations' m k)"
    using p by (rule mset_eq_length)
  ultimately show ?thesis
    by (simp add: by_model_lookup_with stats_with_def np_min_def np_max_def)
qed

lemma by_model_with_perm:
  assumes "mset evaluations = mset evaluations'"
    and "mean (metric_scores evaluations m k) = mean (metric_scores evaluations' m k)"
    and "std (metric_scores evaluations m k) = std (metric_scores evaluations' m k)"
  shows "by_model_lookup (aggregate_results_with mean std evaluations) m k
         = by_model_lookup (aggregate_results_with mean std evaluations') m k"
proof -
  note p = metric_scores_perm [OF assms(1), of m k]
  have "metric_scores evaluations m k = [] \<longleftrightarrow> metric_scores evaluations' m k = []"
    using p by (rule mset_eq_Nil_iff)
  moreover have "set (metric_scores evaluations m k) = set (metric_scores evaluations' m k)"
    using p by (rule mset_eq_setD)
  moreover have "length (metric_scores evaluations m k) = length (metric_scores evaluations' m k)"
    using p by (rule mset_eq_length)
  ultimately show ?thesis
    using assms(2,3) by (simp add: by_model_lookup_with stats_with_def np_min_def np_max_def)
qed

subsection \<open>Float64 arithmetic on the examples\<close>

lemma float64_normal:
  assumes "0 < x" "2 powr of_int k \<le> x" "x < 2 powr of_int (k + 1)" "- 1022 \<le> k"
  shows "float64 x = of_int (round_half_even (x / 2 powr of_int (k - 52))) * 2 powr of_int (k - 52)"
proof -
  have "\<lfloor>log 2 x\<rfloor> = k"
    using assms(1-3) by (simp add: floor_log_eq_powr_iff)
  moreover have "max (k - 52) (- 1074) = k - 52"
    using assms(4) by simp
  ultimately show ?thesis
    using assms(1) by (simp add: float64_def)
qed

lemma float64_sum_123:
  "float64 f01 = f01"
  "float64 (f01 + f02) = 5404319552844596 / 18014398509481984"
  "float64 (5404319552844596 / 18014398509481984 + f03) = 5404319552844596 / 9007199254740992"
  "float64 (5404319552844596 / 9007199254740992 / 3) = 7205759403792795 / 36028797018963968"
     apply (subst float64_normal [where k = "- 4"];
      simp add: powr_neg_numeral round_half_even_def Let_def f01_def f02_def f03_def)
    apply (subst float64_normal [where k = "- 2"];
      simp add: powr_neg_numeral round_half_even_def Let_def f01_def f02_def f03_def)
   apply (subst float64_normal [where k = "- 1"];
      simp add: powr_neg_numeral round_half_even_def Let_def f01_def f02_def f03_def)
  apply (subst float64_normal [where k = "- 3"];
      simp add: powr_neg_numeral round_half_even_def Let_def f01_def f02_def f03_def)
  done

lemma float64_sum_321:
  "float64 f03 = f03"
  "float64 (f03 + f02) = 1 / 2"
  "float64 (1 / 2 + f01) = 5404319552844595 / 9007199254740992"
  "float64 (5404319552844595 / 9007199254740992 / 3) = 7205759403792793 / 36028797018963968"
     apply (subst float64_normal [where k = "- 2"];
      simp add: powr_neg_numeral round_half_even_def Let_def f01_def f02_def f03_def)
    apply (subst float64_normal [where k = "- 1"];
      simp add: powr_neg_numeral round_half_even_def Let_def f01_def f02_def f03_def)
   apply (subst float64_normal [where k = "- 1"];
      simp add: powr_neg_numeral round_half_even_def Let_def f01_def f02_def f03_def)
  apply (subst float64_normal [where k = "- 3"];
      simp add: powr_neg_numeral round_half_even_def Let_def f01_def f02_def f03_def)
  done

lemma float64_mean_123:
  "float64_mean [f01, f02, f03] = 7205759403792795 / 36028797018963968"
proof -
  have l: "real (length [f01, f02, f03]) = 3"
    by simp
  have s: "fold (\<lambda>x s. float64 (s + x)) [f01, f02, f03] 0 = 5404319552844596 / 9007199254740992"
    by (simp only: fold_simps comp_apply id_apply add_0_left float64_sum_123)
  show ?thesis
    unfolding float64_mean_def l s by (rule float64_sum_123(4))
qed

lemma float64_mean_321:
  "float64_mean [f03, f02, f01] = 7205759403792793 / 36028797018963968"
proof -
  have l: "real (length [f03, f02, f01]) = 3"
    by simp
  have s: "fold (\<lambda>x s. float64 (s + x)) [f03, f02, f01] 0 = 5404319552844595 / 9007199254740992"
    by (simp only: fold_simps comp_apply id_apply add_0_left float64_sum_321)
  show ?thesis
    unfolding float64_mean_def l s by (rule float64_sum_321(4))
qed

lemma rounding_scores:
  "metric_scores rounding_example ''A'' ''BLEU-4'' = [f01, f02, f03]"
  "metric_scores (rev rounding_example) ''A'' ''BLEU-4'' = [f03, f02, f01]"
  by (simp_all add: metric_scores_def rounding_example_def eval_of_def)

lemma float64_exact:
  "float64 1 = 1" "float64 (1 / 2) = 1 / 2"
  "float64 (1 / 3) = 6004799503160661 / 18014398509481984"
    apply (subst float64_normal [where k = 0]; simp add: round_half_even_def Let_def powr_neg_numeral)
   apply (subst float64_normal [where k = "- 1"]; simp add: round_half_even_def Let_def powr_neg_numeral)
  apply (subst float64_normal [where k = "- 2"]; simp add: round_half_even_def Let_def powr_neg_numeral)
  done

lemma float64_0: "float64 0 = 0"
  by (simp add: float64_def)

lemma ranking_example_grouped:
  "all_model_scores ranking_example m
     = (if m = ''A'' then [1, 0, 0] else if m = ''B'' then [1 / 2, 1 / 2] else [])"
  "all_model_scores (rev ranking_example) m
     = (if m = ''A'' then [0, 0, 1] else if m = ''B'' then [1 / 2, 1 / 2] else [])"
  by (simp_all add: all_model_scores_def scores_by_model_metric_def dd_modify_def dd_append_def
      ranking_example_def eval_of_def entry_def)

lemma ranking_example_float_means:
  "float64_mean [1, 0, 0] = 6004799503160661 / 18014398509481984"
  "float64_mean [0, 0, 1] = 6004799503160661 / 18014398509481984"
  "float64_mean [1 / 2, 1 / 2] = 1 / 2"
  by (simp_all add: float64_mean_def float64_exact float64_0)


lemma ranking_example_bleu:
  "metric_scores ranking_example m ''BLEU-4''
     = (if m = ''A'' then [1] else if m = ''B'' then [1 / 2] else [])"
  "metric_scores (rev ranking_example) m ''BLEU-4''
     = (if m = ''A'' then [1] else if m = ''B'' then [1 / 2] else [])"
  by (simp_all add: metric_scores_def ranking_example_def eval_of_def)

lemma ranking_example_models:
  "model_scores ranking_example m \<noteq> [] \<longleftrightarrow> m = ''A'' \<or> m = ''B''"
  by (simp add: model_scores_def ranking_example_def eval_of_def)

lemma float64_mean_single: "float64_mean [1] = 1" "float64_mean [1 / 2] = 1 / 2"
  by (simp_all add: float64_mean_def float64_exact)

text \<open>
  C3, as the code has it, for any \<open>np.mean\<close> and \<open>np.std\<close>. Take two collections that hold
  the same evaluations in a different order.

  \<^item> Every (model, metric) pair has the same scores in both, possibly in a different
    order; its statistics are those of its scores in the order of the input. So \<open>min\<close>,
    \<open>max\<close> and \<open>count\<close> are the same, and the whole entry is the same when \<open>np.mean\<close> and
    \<open>np.std\<close> return the same values for the two orders.
  \<^item> \<open>overall_rankings\<close> holds the same models. The score of a model is \<open>np.mean\<close> of
    \<open>all_model_scores\<close>, which holds all scores of the model in both collections; models with
    the same score stand in the order in which the input first has a score of them. The
    list is the same when \<open>np.mean\<close> returns the same value for both orders of every
    model's scores and no two models have the same score.
  \<^item> The best model of a metric is the first of the candidates with the greatest mean,
    the candidates standing in that same order of first scores. It is the same when
    \<open>np.mean\<close> returns the same value for both orders of every model's scores for the
    metric and no two models have the same mean for it.
\<close>

theorem aggregate_permutation:
  assumes "mset evaluations = mset evaluations'"
  shows "(\<forall>model metric.
            mset (metric_scores evaluations model metric)
              = mset (metric_scores evaluations' model metric)
            \<and> by_model_lookup (aggregate_results_with mean std evaluations) model metric
              = (if metric_scores evaluations model metric = [] then None
                 else Some (stats_with mean std (metric_scores evaluations model metric))))
    \<and> (\<forall>model metric.
          map_option (\<lambda>s. (stat_min s, stat_max s, stat_count s))
            (by_model_lookup (aggregate_results_with mean std evaluations) model metric)
          = map_option (\<lambda>s. (stat_min s, stat_max s, stat_count s))
              (by_model_lookup (aggregate_results_with mean std evaluations') model metric))
    \<and> (\<forall>model metric.
          mean (metric_scores evaluations model metric)
            = mean (metric_scores evaluations' model metric)
          \<and> std (metric_scores evaluations model metric)
            = std (metric_scores evaluations' model metric)
          \<longrightarrow> by_model_lookup (aggregate_results_with mean std evaluations) model metric
              = by_model_lookup (aggregate_results_with mean std evaluations') model metric)
    \<and> fst ` set (overall_rankings (aggregate_results_with mean std evaluations))
      = fst ` set (overall_rankings (aggregate_results_with mean std evaluations'))
    \<and> (\<forall>model. mset (all_model_scores evaluations model) = mset (model_scores evaluations model)
                \<and> mset (all_model_scores evaluations' model)
                  = mset (model_scores evaluations model))
    \<and> (\<forall>v. filter (\<lambda>p. snd p = v)
               (overall_rankings (aggregate_results_with mean std evaluations))
             = map (\<lambda>m. (m, v))
                 (filter (\<lambda>m. mean (all_model_scores evaluations m) = v)
                    (scored_models evaluations)))
    \<and> ((\<forall>m. mean (all_model_scores evaluations m) = mean (all_model_scores evaluations' m))
        \<and> inj_on (\<lambda>m. mean (all_model_scores evaluations m))
            {m. model_scores evaluations m \<noteq> []}
        \<longrightarrow> overall_rankings (aggregate_results_with mean std evaluations)
            = overall_rankings (aggregate_results_with mean std evaluations'))
    \<and> (\<forall>metric.
          case best_model_of (aggregate_results_with mean std evaluations) metric of
            None \<Rightarrow> metric_candidates mean evaluations metric = []
          | Some best \<Rightarrow>
              (\<exists>before after.
                 metric_candidates mean evaluations metric = before @ best # after
                 \<and> (\<forall>c\<in>set before. snd c < snd best) \<and> (\<forall>c\<in>set after. snd c \<le> snd best)))
    \<and> (\<forall>metric.
          (\<forall>m. mean (metric_scores evaluations m metric)
                = mean (metric_scores evaluations' m metric))
          \<and> inj_on (\<lambda>m. mean (metric_scores evaluations m metric))
              {m. metric_scores evaluations m metric \<noteq> []}
          \<longrightarrow> best_model_of (aggregate_results_with mean std evaluations) metric
              = best_model_of (aggregate_results_with mean std evaluations') metric)"
proof (intro conjI allI impI)
  fix model metric
  show "mset (metric_scores evaluations model metric)
        = mset (metric_scores evaluations' model metric)"
    using assms by (rule metric_scores_perm)
  show "by_model_lookup (aggregate_results_with mean std evaluations) model metric
        = (if metric_scores evaluations model metric = [] then None
           else Some (stats_with mean std (metric_scores evaluations model metric)))"
    by (rule by_model_lookup_with)
  show "map_option (\<lambda>s. (stat_min s, stat_max s, stat_count s))
          (by_model_lookup (aggregate_results_with mean std evaluations) model metric)
        = map_option (\<lambda>s. (stat_min s, stat_max s, stat_count s))
            (by_model_lookup (aggregate_results_with mean std evaluations') model metric)"
    using assms by (rule by_model_order_free)
  show "by_model_lookup (aggregate_results_with mean std evaluations) model metric
        = by_model_lookup (aggregate_results_with mean std evaluations') model metric"
    if "mean (metric_scores evaluations model metric)
          = mean (metric_scores evaluations' model metric)
        \<and> std (metric_scores evaluations model metric)
          = std (metric_scores evaluations' model metric)"
    using assms that [THEN conjunct1] that [THEN conjunct2] by (rule by_model_with_perm)
  show "mset (all_model_scores evaluations model) = mset (model_scores evaluations model)"
    by (rule mset_all_model_scores)
  show "mset (all_model_scores evaluations' model) = mset (model_scores evaluations model)"
    using model_scores_perm [OF assms, of model] by (simp only: mset_all_model_scores)
next
  show "fst ` set (overall_rankings (aggregate_results_with mean std evaluations))
        = fst ` set (overall_rankings (aggregate_results_with mean std evaluations'))"
    using scored_models_perm [OF assms] by (simp only: rankings_models)
next
  fix v
  show "filter (\<lambda>p. snd p = v) (overall_rankings (aggregate_results_with mean std evaluations))
        = map (\<lambda>m. (m, v))
            (filter (\<lambda>m. mean (all_model_scores evaluations m) = v) (scored_models evaluations))"
    by (rule rankings_ties)
next
  assume h: "(\<forall>m. mean (all_model_scores evaluations m) = mean (all_model_scores evaluations' m))
          \<and> inj_on (\<lambda>m. mean (all_model_scores evaluations m))
              {m. model_scores evaluations m \<noteq> []}"
  show "overall_rankings (aggregate_results_with mean std evaluations)
        = overall_rankings (aggregate_results_with mean std evaluations')"
    using assms h [THEN conjunct1] h [THEN conjunct2] by (rule rankings_with_perm)
next
  fix metric
  show "case best_model_of (aggregate_results_with mean std evaluations) metric of
          None \<Rightarrow> metric_candidates mean evaluations metric = []
        | Some best \<Rightarrow>
            (\<exists>before after.
               metric_candidates mean evaluations metric = before @ best # after
               \<and> (\<forall>c\<in>set before. snd c < snd best) \<and> (\<forall>c\<in>set after. snd c \<le> snd best))"
    by (rule best_model_first)
  show "best_model_of (aggregate_results_with mean std evaluations) metric
        = best_model_of (aggregate_results_with mean std evaluations') metric"
    if "(\<forall>m. mean (metric_scores evaluations m metric)
              = mean (metric_scores evaluations' m metric))
        \<and> inj_on (\<lambda>m. mean (metric_scores evaluations m metric))
            {m. metric_scores evaluations m metric \<noteq> []}"
    using assms that [THEN conjunct1] that [THEN conjunct2] by (rule best_model_with_perm)
qed

theorem aggregate_permutation_witness:
  "overall_rankings (aggregate_results_with np_mean np_std ranking_example)
     = overall_rankings (aggregate_results_with np_mean np_std (rev ranking_example))
   \<and> by_model_lookup (aggregate_results_with np_mean np_std ranking_example) ''A'' ''ROUGE-L''
     = by_model_lookup (aggregate_results_with np_mean np_std (rev ranking_example)) ''A'' ''ROUGE-L''
   \<and> best_model_of (aggregate_results_with np_mean np_std ranking_example) ''BLEU-4''
     = best_model_of (aggregate_results_with np_mean np_std (rev ranking_example)) ''BLEU-4''
   \<and> (\<forall>std. overall_rankings (aggregate_results_with float64_mean std ranking_example)
         = overall_rankings (aggregate_results_with float64_mean std (rev ranking_example)))
   \<and> (\<forall>std. best_model_of (aggregate_results_with float64_mean std ranking_example) ''BLEU-4''
         = best_model_of (aggregate_results_with float64_mean std (rev ranking_example)) ''BLEU-4'')"
proof -
  have p: "mset ranking_example = mset (rev ranking_example)"
    by simp
  have a: "np_mean (all_model_scores ranking_example m)
           = np_mean (all_model_scores (rev ranking_example) m)" for m
    using all_model_scores_perm [OF p] by (rule np_mean_mset)
  have b: "np_mean (all_model_scores ranking_example m) = np_mean (model_scores ranking_example m)" for m
    using mset_all_model_scores by (rule np_mean_mset)
  have "inj_on (\<lambda>m. np_mean (model_scores ranking_example m))
          {m. model_scores ranking_example m \<noteq> []}"
    by (auto simp: inj_on_def model_scores_def ranking_example_def eval_of_def np_mean_def
        split: if_splits)
  then have i: "inj_on (\<lambda>m. np_mean (all_model_scores ranking_example m))
                  {m. model_scores ranking_example m \<noteq> []}"
    by (simp only: b)
  have c: "np_mean (metric_scores ranking_example m k)
           = np_mean (metric_scores (rev ranking_example) m k)" for m k
    using metric_scores_perm [OF p] by (rule np_mean_mset)
  have d: "np_std (metric_scores ranking_example m k)
           = np_std (metric_scores (rev ranking_example) m k)" for m k
    using metric_scores_perm [OF p] by (rule np_std_mset)
  have j: "inj_on (\<lambda>m. np_mean (metric_scores ranking_example m ''BLEU-4''))
             {m. metric_scores ranking_example m ''BLEU-4'' \<noteq> []}"
    by (auto simp: inj_on_def metric_scores_def ranking_example_def eval_of_def np_mean_def
        split: if_splits)
  note t = aggregate_permutation [OF p, of np_mean np_std]
  note t3 = t [THEN conjunct2, THEN conjunct2, THEN conjunct1]
  note t7 = t [THEN conjunct2, THEN conjunct2, THEN conjunct2, THEN conjunct2, THEN conjunct2,
      THEN conjunct2, THEN conjunct1]
  note t9 = t [THEN conjunct2, THEN conjunct2, THEN conjunct2, THEN conjunct2, THEN conjunct2,
      THEN conjunct2, THEN conjunct2, THEN conjunct2]
  have 1: "overall_rankings (aggregate_results_with np_mean np_std ranking_example)
           = overall_rankings (aggregate_results_with np_mean np_std (rev ranking_example))"
    using t7 a i by blast
  have 2: "by_model_lookup (aggregate_results_with np_mean np_std ranking_example) ''A'' ''ROUGE-L''
           = by_model_lookup (aggregate_results_with np_mean np_std (rev ranking_example)) ''A'' ''ROUGE-L''"
    using t3 c d by blast
  have 3: "best_model_of (aggregate_results_with np_mean np_std ranking_example) ''BLEU-4''
           = best_model_of (aggregate_results_with np_mean np_std (rev ranking_example)) ''BLEU-4''"
    using t9 c j by blast
  have a': "\<forall>m. float64_mean (all_model_scores ranking_example m)
            = float64_mean (all_model_scores (rev ranking_example) m)"
    by (simp add: ranking_example_grouped ranking_example_float_means)
  have i': "inj_on (\<lambda>m. float64_mean (all_model_scores ranking_example m))
              {m. model_scores ranking_example m \<noteq> []}"
    by (auto simp: inj_on_def ranking_example_models ranking_example_grouped
        ranking_example_float_means)
  have c': "\<forall>m. float64_mean (metric_scores ranking_example m ''BLEU-4'')
            = float64_mean (metric_scores (rev ranking_example) m ''BLEU-4'')"
    by (simp add: ranking_example_bleu)
  have j': "inj_on (\<lambda>m. float64_mean (metric_scores ranking_example m ''BLEU-4''))
              {m. metric_scores ranking_example m ''BLEU-4'' \<noteq> []}"
    by (auto simp: inj_on_def ranking_example_bleu float64_mean_single split: if_splits)
  note u = aggregate_permutation [OF p, of float64_mean]
  note u7 = u [THEN conjunct2, THEN conjunct2, THEN conjunct2, THEN conjunct2, THEN conjunct2,
      THEN conjunct2, THEN conjunct1]
  note u9 = u [THEN conjunct2, THEN conjunct2, THEN conjunct2, THEN conjunct2, THEN conjunct2,
      THEN conjunct2, THEN conjunct2, THEN conjunct2]
  have 4: "overall_rankings (aggregate_results_with float64_mean std ranking_example)
           = overall_rankings (aggregate_results_with float64_mean std (rev ranking_example))" for std
    using u7 [of std] a' i' by blast
  have 5: "best_model_of (aggregate_results_with float64_mean std ranking_example) ''BLEU-4''
           = best_model_of (aggregate_results_with float64_mean std (rev ranking_example)) ''BLEU-4''" for std
    using u9 [of std] c' j' by blast
  from 1 2 3 4 5 show ?thesis by simp
qed

text \<open>
  C3 as stated fails in two ways. On a tie: two evaluations, of models A and B with the
  same single score, give rankings and a best model that follow the order of the input.
  On rounding: three evaluations of one model with the BLEU-4 scores 0.1, 0.2 and 0.3
  give the mean 0.20000000000000004 in this order and 0.19999999999999998 in the reverse
  order, \<open>np.mean\<close> adding the float64 values in the order of the input.
\<close>

theorem order_dependence:
  "mset tie_AB = mset tie_BA
   \<and> overall_rankings (aggregate_results tie_AB) = [(''A'', 1 / 2), (''B'', 1 / 2)]
   \<and> overall_rankings (aggregate_results tie_BA) = [(''B'', 1 / 2), (''A'', 1 / 2)]
   \<and> best_model_of (aggregate_results tie_AB) ''BLEU-4'' = Some (''A'', 1 / 2)
   \<and> best_model_of (aggregate_results tie_BA) ''BLEU-4'' = Some (''B'', 1 / 2)
   \<and> mset rounding_example = mset (rev rounding_example)
   \<and> (\<forall>std. map_option stat_mean
                (by_model_lookup (aggregate_results_with float64_mean std rounding_example)
                   ''A'' ''BLEU-4'')
              = Some (7205759403792795 / 36028797018963968))
   \<and> (\<forall>std. map_option stat_mean
                (by_model_lookup (aggregate_results_with float64_mean std (rev rounding_example))
                   ''A'' ''BLEU-4'')
              = Some (7205759403792793 / 36028797018963968))"
proof -
  have "mset tie_AB = mset tie_BA"
    by (simp add: tie_AB_def tie_BA_def add_mset_commute)
  moreover have "map_option stat_mean
                   (by_model_lookup (aggregate_results_with float64_mean std rounding_example)
                      ''A'' ''BLEU-4'')
                 = Some (7205759403792795 / 36028797018963968)" for std
    by (simp add: by_model_lookup_with rounding_scores stats_with_def float64_mean_123)
  moreover have "map_option stat_mean
                   (by_model_lookup (aggregate_results_with float64_mean std (rev rounding_example))
                      ''A'' ''BLEU-4'')
                 = Some (7205759403792793 / 36028797018963968)" for std
    by (simp add: by_model_lookup_with rounding_scores stats_with_def float64_mean_321)
  ultimately show ?thesis
    using tie_values by simp
qed

end
